theory Spec2Isabelle
  imports Main
begin

section \<open>Python strings\<close>

text \<open>
  A Python \<open>str\<close> is modelled as a \<open>string\<close>; a \<open>char\<close> stands for the code point of the
  same number, so the model covers the strings whose code points are below 256 (ASCII and
  the Latin-1 supplement) and is exact on them.
\<close>

definition codepoint :: "char \<Rightarrow> nat" where
  "codepoint c = of_char c"

text \<open>\<open>s.startswith(p)\<close> and \<open>s.endswith(p)\<close>.\<close>

definition startswith :: "string \<Rightarrow> string \<Rightarrow> bool" where
  "startswith s p = (take (length p) s = p)"

definition endswith :: "string \<Rightarrow> string \<Rightarrow> bool" where
  "endswith s p = (length p \<le> length s \<and> drop (length s - length p) s = p)"

text \<open>\<open>p in s\<close> for strings: \<open>p\<close> occurs in \<open>s\<close> as a substring.\<close>

fun str_in :: "string \<Rightarrow> string \<Rightarrow> bool" where
  "str_in p [] = (p = [])"
| "str_in p (c # cs) = (startswith (c # cs) p \<or> str_in p cs)"

text \<open>\<open>s.split(p, 1)[1]\<close> when \<open>p in s\<close>: what follows the first occurrence of \<open>p\<close>.\<close>

fun after_first :: "string \<Rightarrow> string \<Rightarrow> string" where
  "after_first p [] = []"
| "after_first p (c # cs) =
     (if startswith (c # cs) p then drop (length p) (c # cs) else after_first p cs)"

text \<open>\<open>s.replace(a, b)\<close> for single characters \<open>a\<close> and \<open>b\<close>.\<close>

definition replace_char :: "char \<Rightarrow> char \<Rightarrow> string \<Rightarrow> string" where
  "replace_char a b s = map (\<lambda>c. if c = a then b else c) s"

text \<open>\<open>s.split(sep)\<close> for a single character \<open>sep\<close>: never an empty list.\<close>

fun split_char :: "char \<Rightarrow> string \<Rightarrow> string list" where
  "split_char sep [] = [[]]"
| "split_char sep (c # cs) =
     (if c = sep then [] # split_char sep cs
      else (case split_char sep cs of
              [] \<Rightarrow> [[c]]
            | p # ps \<Rightarrow> (c # p) # ps))"

text \<open>\<open>sep.join(parts)\<close>.\<close>

fun join_with :: "string \<Rightarrow> string list \<Rightarrow> string" where
  "join_with sep [] = []"
| "join_with sep [p] = p"
| "join_with sep (p # q # ps) = p @ sep @ join_with sep (q # ps)"

text \<open>
  \<open>s.lower()\<close> on code points below 256: the ASCII capitals and the Latin-1 capitals
  0xC0..0xDE (0xD7, the multiplication sign, apart) move up by 32.
\<close>

definition lower_char :: "char \<Rightarrow> char" where
  "lower_char c =
     (let n = codepoint c in
      if (65 \<le> n \<and> n \<le> 90) \<or> (192 \<le> n \<and> n \<le> 222 \<and> n \<noteq> 215)
      then char_of (n + 32) else c)"

definition lower :: "string \<Rightarrow> string" where
  "lower s = map lower_char s"

section \<open>Regular expressions of the source\<close>

text \<open>
  The class \<open>\w\<close> of a Python 3 \<open>str\<close> pattern: the underscore and every character that
  is alphanumeric in Unicode. Below code point 256 these are the ASCII letters and digits,
  0xAA, 0xB2, 0xB3, 0xB5, 0xB9, 0xBA, 0xBC..0xBE, 0xC0..0xD6, 0xD8..0xF6 and 0xF8..0xFF.
\<close>

definition is_ascii_alnum :: "char \<Rightarrow> bool" where
  "is_ascii_alnum c =
     (let n = codepoint c in
      (48 \<le> n \<and> n \<le> 57) \<or> (65 \<le> n \<and> n \<le> 90) \<or> (97 \<le> n \<and> n \<le> 122))"

definition is_word_char :: "char \<Rightarrow> bool" where
  "is_word_char c =
     (let n = codepoint c in
      is_ascii_alnum c \<or> c = CHR ''_'' \<or> n = 170 \<or> n = 178 \<or> n = 179 \<or> n = 181 \<or> n = 185 \<or>
      n = 186 \<or> (188 \<le> n \<and> n \<le> 190) \<or> (192 \<le> n \<and> n \<le> 214) \<or>
      (216 \<le> n \<and> n \<le> 246) \<or> 248 \<le> n)"

text \<open>The class \<open>[\w\-_.]\<close>, used negated in \<open>backup_file\<close> and as it is in the zip builder.\<close>

definition key_class :: "char \<Rightarrow> bool" where
  "key_class c = (is_word_char c \<or> c = CHR ''-'' \<or> c = CHR ''_'' \<or> c = CHR ''.'')"

text \<open>
  \<open>re.sub\<close> for a pattern that is one character class: each matching character is
  replaced by \<open>repl\<close>, the others are kept.
\<close>

fun re_sub_class :: "(char \<Rightarrow> bool) \<Rightarrow> string \<Rightarrow> string \<Rightarrow> string" where
  "re_sub_class cls repl [] = []"
| "re_sub_class cls repl (c # cs) =
     (if cls c then repl @ re_sub_class cls repl cs else c # re_sub_class cls repl cs)"

text \<open>Line 160: \<open>server_key = re.sub(r'[^\w\-_.]', '_', site_name)\<close>.\<close>

definition server_key_of :: "string \<Rightarrow> string" where
  "server_key_of site_name = re_sub_class (\<lambda>c. \<not> key_class c) ''_'' site_name"

text \<open>The set \<open>[A-Za-z0-9_.-]\<close> of the specification.\<close>

definition ascii_key_char :: "char \<Rightarrow> bool" where
  "ascii_key_char c = (is_ascii_alnum c \<or> c = CHR ''_'' \<or> c = CHR ''.'' \<or> c = CHR ''-'')"

section \<open>The path functions of the standard library\<close>

text \<open>
  \<open>os.path\<close> is modelled as \<open>posixpath\<close>, the separator \<open>os.sep\<close> being \<open>/\<close>: the paths
  of the specification (\<open>/backup\<close>, \<open>/var/www/acme/index.php\<close>) are POSIX paths.
\<close>

definition os_sep :: char where
  "os_sep = CHR ''/''"

text \<open>The backslash, to which the source normalises the separators before matching.\<close>

definition bsl :: char where
  "bsl = CHR 0x5C"

text \<open>\<open>os.path.basename(p)\<close>: what follows the last separator.\<close>

definition basename :: "string \<Rightarrow> string" where
  "basename p = rev (takeWhile (\<lambda>c. c \<noteq> os_sep) (rev p))"

text \<open>
  \<open>os.path.dirname(p)\<close>: the head up to the last separator, its trailing separators
  stripped unless it consists of separators only.
\<close>

definition dirname :: "string \<Rightarrow> string" where
  "dirname p =
     (let head = rev (dropWhile (\<lambda>c. c \<noteq> os_sep) (rev p)) in
      if head \<noteq> [] \<and> (\<exists>c \<in> set head. c \<noteq> os_sep)
      then rev (dropWhile (\<lambda>c. c = os_sep) (rev head)) else head)"

text \<open>\<open>os.path.join(a, *ps)\<close>: a component that starts with the separator restarts the path.\<close>

definition join_step :: "string \<Rightarrow> string \<Rightarrow> string" where
  "join_step path b =
     (if startswith b [os_sep] then b
      else if path = [] \<or> endswith path [os_sep] then path @ b
      else path @ [os_sep] @ b)"

definition path_join :: "string \<Rightarrow> string list \<Rightarrow> string" where
  "path_join a ps = foldl join_step a ps"

text \<open>
  \<open>os.path.normpath(p)\<close>: empty and \<open>.\<close> components are dropped, \<open>..\<close> removes the
  component before it; one or two leading separators are kept, three or more become one.
\<close>

definition norm_step :: "nat \<Rightarrow> string list \<Rightarrow> string \<Rightarrow> string list" where
  "norm_step initial_slashes new_comps c =
     (if c = [] \<or> c = ''.'' then new_comps
      else if c \<noteq> ''..'' \<or> (initial_slashes = 0 \<and> new_comps = []) \<or>
              (new_comps \<noteq> [] \<and> last new_comps = ''..'')
      then new_comps @ [c]
      else if new_comps \<noteq> [] then butlast new_comps
      else new_comps)"

definition normpath :: "string \<Rightarrow> string" where
  "normpath path =
     (if path = [] then ''.''
      else
        let initial_slashes =
              (if startswith path ''//'' \<and> \<not> startswith path ''///'' then 2
               else if startswith path ''/'' then 1 else 0 :: nat);
            comps = foldl (norm_step initial_slashes) [] (split_char os_sep path);
            joined = replicate initial_slashes os_sep @ join_with [os_sep] comps
        in if joined = [] then ''.'' else joined)"

section \<open>PathResolver\<close>

text \<open>Lines 49 to 56: \<open>self.project_roots\<close>, in the order of the source.\<close>

definition project_roots :: "string list" where
  "project_roots =
     [''var'' @ [bsl] @ ''www'' @ [bsl],
      ''www'' @ [bsl],
      ''public_html'' @ [bsl],
      ''local'' @ [bsl],
      ''htdocs'' @ [bsl],
      ''home'' @ [bsl]]"

text \<open>
  Line 88: \<open>re.search(r'Temp\\[^\\]+\\(.+)', normalized_path)\<close>. At one position: the word
  \<open>Temp\<close> and a backslash, a non-empty run without backslash, a backslash, and the group, a
  non-empty run of characters other than the newline.
\<close>

definition temp_match_here :: "string \<Rightarrow> string option" where
  "temp_match_here s =
     (if startswith s (''Temp'' @ [bsl]) then
        (let rest = drop 5 s;
             seg = takeWhile (\<lambda>c. c \<noteq> bsl) rest;
             tl_after = drop (Suc (length seg)) rest;
             grp = takeWhile (\<lambda>c. c \<noteq> CHR 0x0A) tl_after
         in if seg \<noteq> [] \<and> length seg < length rest \<and> grp \<noteq> [] then Some grp else None)
      else None)"

fun temp_search :: "string \<Rightarrow> string option" where
  "temp_search [] = None"
| "temp_search (c # cs) =
     (case temp_match_here (c # cs) of Some g \<Rightarrow> Some g | None \<Rightarrow> temp_search cs)"

text \<open>Lines 81 to 86: the first root of the list that occurs in the path decides.\<close>

fun first_root :: "string list \<Rightarrow> string \<Rightarrow> string option" where
  "first_root [] normalized_path = None"
| "first_root (root # roots) normalized_path =
     (if str_in root normalized_path
      then Some (replace_char bsl CHR ''/'' (after_first root normalized_path))
      else first_root roots normalized_path)"

text \<open>Lines 75 to 98: \<open>_extract_relative_path\<close>.\<close>

definition extract_relative_path :: "string \<Rightarrow> string" where
  "extract_relative_path file_path =
     (let normalized_path = replace_char CHR ''/'' bsl file_path in
      case first_root project_roots normalized_path of
        Some result \<Rightarrow> result
      | None \<Rightarrow>
          (case temp_search normalized_path of
             Some g \<Rightarrow> replace_char bsl CHR ''/'' g
           | None \<Rightarrow> basename file_path))"

text \<open>
  Line 107, the first pattern: one of the markers, in this order, and the group, a non-empty
  run without backslash. \<open>marker_group\<close> tries the alternatives at one position,
  \<open>marker_search\<close> finds the leftmost position, as \<open>re.search\<close> does. The separator that
  ends the group is a parameter: the second pattern, \<open>ftp://([^/]+)\<close>, ends it at a slash.
\<close>

definition site_markers :: "string list" where
  "site_markers =
     [''var'' @ [bsl] @ ''www'' @ [bsl],
      ''www'' @ [bsl],
      ''public_html'' @ [bsl],
      ''local'' @ [bsl],
      ''htdocs'' @ [bsl],
      ''home'' @ [bsl]]"

fun marker_group :: "char \<Rightarrow> string list \<Rightarrow> string \<Rightarrow> string option" where
  "marker_group stop [] s = None"
| "marker_group stop (a # alts) s =
     (let grp = takeWhile (\<lambda>c. c \<noteq> stop) (drop (length a) s) in
      if startswith s a \<and> grp \<noteq> [] then Some grp else marker_group stop alts s)"

fun marker_search :: "char \<Rightarrow> string list \<Rightarrow> string \<Rightarrow> string option" where
  "marker_search stop alts [] = None"
| "marker_search stop alts (c # cs) =
     (case marker_group stop alts (c # cs) of
        Some g \<Rightarrow> Some g
      | None \<Rightarrow> marker_search stop alts cs)"

text \<open>
  Line 109, the third pattern, \<open>\\([^\\]+)\\(?:www|public_html|httpdocs)\\\<close>: a backslash,
  the group, and one of the three folder names between backslashes.
\<close>

definition before_webroot_here :: "string \<Rightarrow> string option" where
  "before_webroot_here s =
     (case s of
        [] \<Rightarrow> None
      | c # rest \<Rightarrow>
          (let seg = takeWhile (\<lambda>c. c \<noteq> bsl) rest;
               after = drop (length seg) rest
           in if c = bsl \<and> seg \<noteq> [] \<and>
                 (\<exists>name \<in> set [''www'', ''public_html'', ''httpdocs''].
                     startswith after ([bsl] @ name @ [bsl]))
              then Some seg else None))"

fun before_webroot_search :: "string \<Rightarrow> string option" where
  "before_webroot_search [] = None"
| "before_webroot_search (c # cs) =
     (case before_webroot_here (c # cs) of
        Some g \<Rightarrow> Some g
      | None \<Rightarrow> before_webroot_search cs)"

text \<open>
  Lines 119 to 123: the part before the first part, not at index 0, whose lower-case form is
  a web-root folder name.
\<close>

fun part_before_webroot :: "string list \<Rightarrow> string option" where
  "part_before_webroot (p # q # ps) =
     (if lower q \<in> set [''www'', ''public_html'', ''httpdocs'', ''htdocs'']
      then Some p else part_before_webroot (q # ps))"
| "part_before_webroot ps = None"

text \<open>Lines 124 to 127: the first part with a dot that does not end like a source file.\<close>

definition looks_like_domain :: "string \<Rightarrow> bool" where
  "looks_like_domain part =
     (CHR ''.'' \<in> set part \<and>
      \<not> (endswith part ''.php'' \<or> endswith part ''.html'' \<or> endswith part ''.js'' \<or>
         endswith part ''.css''))"

text \<open>
  Lines 100 to 135: \<open>extract_site_name\<close>. \<open>hostname\<close> is what \<open>socket.gethostname()\<close>
  returns. The three patterns are searched in the path with backslashes.
\<close>

definition extract_site_name :: "string \<Rightarrow> string \<Rightarrow> string" where
  "extract_site_name hostname file_path =
     (let normalized_path = replace_char CHR ''/'' bsl file_path in
      case marker_search bsl site_markers normalized_path of
        Some site_name \<Rightarrow> site_name
      | None \<Rightarrow>
     (case marker_search CHR ''/'' [''ftp://''] normalized_path of
        Some site_name \<Rightarrow> site_name
      | None \<Rightarrow>
     (case before_webroot_search normalized_path of
        Some site_name \<Rightarrow> site_name
      | None \<Rightarrow>
     (let parts = split_char bsl normalized_path in
      case part_before_webroot parts of
        Some site_name \<Rightarrow> site_name
      | None \<Rightarrow>
     (case find looks_like_domain parts of
        Some part \<Rightarrow> part
      | None \<Rightarrow> hostname)))))"

section \<open>The file system and the exceptions\<close>

text \<open>
  The exceptions the modelled statements raise. \<open>AttributeError\<close> is what the
  interpreter raises for a method the object does not have.
\<close>

datatype exn =
  FileNotFoundError | FileExistsError | NotADirectoryError | IsADirectoryError |
  SameFileError | AttributeError

text \<open>
  An entry of \<open>server_backup_map\<close> is a dictionary from field names
  (\<open>first_backup_time\<close>, \<open>last_backup_time\<close>, \<open>site\<close>) to strings; the map itself is a
  dictionary from relative paths to entries. These are the entries \<open>backup_file\<close> writes;
  a configuration file with values of another shape is outside the model.
\<close>

type_synonym entry = "string \<rightharpoonup> string"

type_synonym manifest = "string \<rightharpoonup> entry"

text \<open>
  What a regular file holds: bytes, the JSON text of a manifest (the configuration file), or
  a zip archive, whose members are not modelled.
\<close>

datatype fdata = Bytes string | ManifestJson manifest | ZipArchive

text \<open>
  The file system: the regular files with their contents, and the directories. A path
  names a file or directory by its text; there are no links, and no permissions, quotas or
  device errors. Two texts name the same file only when they are equal: this is how the
  operating system reads absolute normalised paths (\<open>canonical\<close> below) on a file system
  that tells upper case from lower case. A relative path, and a path with a part \<open>..\<close>, a
  part \<open>.\<close> or a doubled separator, may name the file of another text; the statements
  about the content of files are made for canonical paths.
\<close>

record fsys =
  files :: "string \<rightharpoonup> fdata"
  dirs :: "string set"

definition path_exists :: "fsys \<Rightarrow> string \<Rightarrow> bool" where
  "path_exists fs p = (p \<in> dom (files fs) \<or> p \<in> dirs fs)"

text \<open>
  An absolute normalised path: it starts with one separator (two at the start are a root
  of their own) and \<open>os.path.normpath\<close> leaves it as it is. In a canonical file system
  every file and every directory has such a path.
\<close>

definition canonical :: "string \<Rightarrow> bool" where
  "canonical p = (startswith p [os_sep] \<and> \<not> startswith p [os_sep, os_sep] \<and> normpath p = p)"

definition canonical_fs :: "fsys \<Rightarrow> bool" where
  "canonical_fs fs = (\<forall>p. p \<in> dom (files fs) \<or> p \<in> dirs fs \<longrightarrow> canonical p)"

text \<open>
  The directories \<open>os.makedirs(p)\<close> walks through: every prefix of \<open>p\<close> that stops before
  a separator (the empty one and those ending in a separator apart), and \<open>p\<close> itself.
\<close>

fun ancestors_from :: "string \<Rightarrow> string \<Rightarrow> string list" where
  "ancestors_from done [] = []"
| "ancestors_from done (c # cs) =
     (if c = os_sep \<and> done \<noteq> [] \<and> last done \<noteq> os_sep
      then done # ancestors_from (done @ [c]) cs
      else ancestors_from (done @ [c]) cs)"

definition path_chain :: "string \<Rightarrow> string list" where
  "path_chain p = ancestors_from [] p @ [p]"

text \<open>
  \<open>os.makedirs(p, exist_ok=True)\<close>: creates \<open>p\<close> and the missing directories above it;
  raises when \<open>p\<close> is empty, or \<open>p\<close> or a path above it is a regular file.
\<close>

definition os_makedirs :: "string \<Rightarrow> fsys \<Rightarrow> exn + fsys" where
  "os_makedirs p fs =
     (if p = [] then Inl FileNotFoundError
      else if p \<in> dom (files fs) then Inl FileExistsError
      else if \<exists>q \<in> set (path_chain p). q \<in> dom (files fs) then Inl NotADirectoryError
      else Inr (fs\<lparr>dirs := dirs fs \<union> set (path_chain p)\<rparr>))"

text \<open>\<open>if not os.path.exists(p): os.makedirs(p, exist_ok=True)\<close>.\<close>

definition ensure_dir :: "string \<Rightarrow> fsys \<Rightarrow> exn + fsys" where
  "ensure_dir p fs = (if path_exists fs p then Inr fs else os_makedirs p fs)"

text \<open>\<open>os.remove(p)\<close>.\<close>

definition os_remove :: "string \<Rightarrow> fsys \<Rightarrow> exn + fsys" where
  "os_remove p fs =
     (if p \<in> dom (files fs) then Inr (fs\<lparr>files := (files fs)(p := None)\<rparr>)
      else if p \<in> dirs fs then Inl IsADirectoryError
      else Inl FileNotFoundError)"

text \<open>\<open>if os.path.exists(p): os.remove(p)\<close>.\<close>

definition remove_if_exists :: "string \<Rightarrow> fsys \<Rightarrow> exn + fsys" where
  "remove_if_exists p fs = (if path_exists fs p then os_remove p fs else Inr fs)"

text \<open>
  \<open>shutil.copy2(src, dst)\<close>. When \<open>dst\<close> is a directory the file is copied into it under
  the base name of \<open>src\<close>. The copy raises when source and target are the same file, when
  the source is not a regular file, when the target is a directory, and when the directory
  of the target does not exist (an empty directory name is the current directory).
\<close>

definition copy_target :: "fsys \<Rightarrow> string \<Rightarrow> string \<Rightarrow> string" where
  "copy_target fs src dst = (if dst \<in> dirs fs then path_join dst [basename src] else dst)"

definition shutil_copy2 :: "string \<Rightarrow> string \<Rightarrow> fsys \<Rightarrow> exn + fsys" where
  "shutil_copy2 src dst fs =
     (let target = copy_target fs src dst in
      if src = target then Inl SameFileError
      else case files fs src of
        None \<Rightarrow> Inl (if src \<in> dirs fs then IsADirectoryError else FileNotFoundError)
      | Some content \<Rightarrow>
          if target \<in> dirs fs then Inl IsADirectoryError
          else if dirname target \<noteq> [] \<and> dirname target \<notin> dirs fs then Inl FileNotFoundError
          else Inr (fs\<lparr>files := (files fs)(target \<mapsto> content)\<rparr>))"

text \<open>
  Statements on the file system run in order; the first exception ends the run, and what
  the statements before it did stays done.
\<close>

fun run_all :: "(fsys \<Rightarrow> exn + fsys) list \<Rightarrow> fsys \<Rightarrow> exn option \<times> fsys" where
  "run_all [] fs = (None, fs)"
| "run_all (stmt # stmts) fs =
     (case stmt fs of
        Inl e \<Rightarrow> (Some e, fs)
      | Inr fs' \<Rightarrow> run_all stmts fs')"

section \<open>BackupStore\<close>

text \<open>
  \<open>FtpBackupManager\<close>: its fields, of which \<open>backup_file\<close> changes \<open>server_backup_map\<close>
  only. The log file and the status line of the editor are not modelled.
\<close>

record manager =
  backup_root :: string
  server_backup_map :: manifest
  config_path :: string

text \<open>
  What a call reads from outside: the host name, and the clock, which the source reads
  at line 164 (\<open>"%B %Y"\<close>), at lines 208 and 233 (\<open>first_backup_time\<close>) and at line 243
  (\<open>last_backup_time\<close>).
\<close>

record env =
  hostname :: string
  month_year :: string
  first_stamp :: string
  last_stamp :: string

text \<open>
  The arguments of \<open>backup_file\<close>; \<open>None\<close> is Python's \<open>None\<close>. A mode other than
  \<open>'before'\<close> and \<open>'after'\<close> takes the \<open>else\<close> branch, the automatic mode.
\<close>

record args =
  file_path :: string
  server_name :: "string option"
  mode :: "string option"
  task_number :: "string option"

text \<open>The truth value Python gives an optional string: \<open>None\<close> and \<open>''\<close> are false.\<close>

definition truthy :: "string option \<Rightarrow> bool" where
  "truthy v = (case v of None \<Rightarrow> False | Some s \<Rightarrow> s \<noteq> [])"

text \<open>Lines 144 to 152: the exclusion test.\<close>

definition excluded_files :: "string list" where
  "excluded_files =
     [''default.sublime-commands'', ''.sublime-commands'', ''.DS_Store'', ''Thumbs.db'']"

definition is_excluded :: "string \<Rightarrow> bool" where
  "is_excluded fp =
     (basename fp \<in> set excluded_files \<or> (\<exists>ext \<in> set excluded_files. str_in ext fp))"

text \<open>Line 159: \<open>site_name = server_name or self.extract_site_name(file_path)\<close>.\<close>

definition site_name_of :: "env \<Rightarrow> args \<Rightarrow> string" where
  "site_name_of e a =
     (if truthy (server_name a) then the (server_name a)
      else extract_site_name (hostname e) (file_path a))"

text \<open>Lines 165 to 191: the folders of the backup tree for this call.\<close>

definition server_folder :: "manager \<Rightarrow> env \<Rightarrow> args \<Rightarrow> string" where
  "server_folder m e a = path_join (backup_root m) [server_key_of (site_name_of e a)]"

definition month_year_folder :: "manager \<Rightarrow> env \<Rightarrow> args \<Rightarrow> string" where
  "month_year_folder m e a = path_join (server_folder m e a) [month_year e]"

definition task_folder :: "manager \<Rightarrow> env \<Rightarrow> args \<Rightarrow> string" where
  "task_folder m e a =
     (if truthy (task_number a)
      then path_join (month_year_folder m e a) [''task_'' @ the (task_number a)]
      else month_year_folder m e a)"

definition before_path :: "manager \<Rightarrow> env \<Rightarrow> args \<Rightarrow> string" where
  "before_path m e a = path_join (task_folder m e a) [''before'']"

definition after_path :: "manager \<Rightarrow> env \<Rightarrow> args \<Rightarrow> string" where
  "after_path m e a = path_join (task_folder m e a) [''after'']"

text \<open>Lines 166 to 194: the folders are created, top down.\<close>

definition make_folders :: "manager \<Rightarrow> env \<Rightarrow> args \<Rightarrow> fsys \<Rightarrow> exn option \<times> fsys" where
  "make_folders m e a fs =
     run_all [ensure_dir (server_folder m e a),
              ensure_dir (month_year_folder m e a),
              ensure_dir (task_folder m e a),
              os_makedirs (before_path m e a),
              os_makedirs (after_path m e a)] fs"

text \<open>Lines 207 to 210 and 232 to 235: the entry a first backup creates.\<close>

definition new_entry :: "env \<Rightarrow> string \<Rightarrow> entry" where
  "new_entry e site_name =
     [''first_backup_time'' \<mapsto> first_stamp e, ''site'' \<mapsto> site_name]"

definition add_entry_if_absent :: "env \<Rightarrow> string \<Rightarrow> string \<Rightarrow> manager \<Rightarrow> manager" where
  "add_entry_if_absent e site_name relative_path m =
     (if relative_path \<notin> dom (server_backup_map m)
      then m\<lparr>server_backup_map := (server_backup_map m)(relative_path \<mapsto> new_entry e site_name)\<rparr>
      else m)"

text \<open>Lines 200 to 210: mode \<open>'before'\<close>.\<close>

definition mode_before ::
  "manager \<Rightarrow> env \<Rightarrow> args \<Rightarrow> fsys \<Rightarrow> exn option \<times> manager \<times> fsys" where
  "mode_before m e a fs =
     (let relative_path = extract_relative_path (file_path a);
          backup_path = path_join (before_path m e a) [relative_path]
      in case run_all [os_makedirs (dirname backup_path),
                       shutil_copy2 (file_path a) backup_path] fs of
           (Some x, fs') \<Rightarrow> (Some x, m, fs')
         | (None, fs') \<Rightarrow>
             (None, add_entry_if_absent e (site_name_of e a) relative_path m, fs'))"

text \<open>Lines 212 to 220: mode \<open>'after'\<close>.\<close>

definition mode_after ::
  "manager \<Rightarrow> env \<Rightarrow> args \<Rightarrow> fsys \<Rightarrow> exn option \<times> manager \<times> fsys" where
  "mode_after m e a fs =
     (let relative_path = extract_relative_path (file_path a);
          backup_path = path_join (after_path m e a) [relative_path]
      in case run_all [os_makedirs (dirname backup_path),
                       remove_if_exists backup_path,
                       shutil_copy2 (file_path a) backup_path] fs of
           (x, fs') \<Rightarrow> (x, m, fs'))"

text \<open>Lines 222 to 240: the automatic mode.\<close>

definition mode_auto ::
  "manager \<Rightarrow> env \<Rightarrow> args \<Rightarrow> fsys \<Rightarrow> exn option \<times> manager \<times> fsys" where
  "mode_auto m e a fs =
     (let relative_path = extract_relative_path (file_path a);
          first_backup_path = path_join (before_path m e a) [relative_path];
          after_backup_path = path_join (after_path m e a) [relative_path]
      in case run_all [os_makedirs (dirname first_backup_path),
                       os_makedirs (dirname after_backup_path)] fs of
           (Some x, fs1) \<Rightarrow> (Some x, m, fs1)
         | (None, fs1) \<Rightarrow>
        (case (if relative_path \<notin> dom (server_backup_map m)
               then run_all [shutil_copy2 (file_path a) first_backup_path] fs1
               else (None, fs1)) of
           (Some x, fs2) \<Rightarrow> (Some x, m, fs2)
         | (None, fs2) \<Rightarrow>
        (let m' = add_entry_if_absent e (site_name_of e a) relative_path m in
         case run_all [remove_if_exists after_backup_path,
                       shutil_copy2 (file_path a) after_backup_path] fs2 of
           (x, fs3) \<Rightarrow> (x, m', fs3))))"

text \<open>Lines 200, 212 and 222: the branch is chosen by the mode.\<close>

definition run_mode ::
  "manager \<Rightarrow> env \<Rightarrow> args \<Rightarrow> fsys \<Rightarrow> exn option \<times> manager \<times> fsys" where
  "run_mode m e a fs =
     (if mode a = Some ''before'' then mode_before m e a fs
      else if mode a = Some ''after'' then mode_after m e a fs
      else mode_auto m e a fs)"

text \<open>Lines 242 to 244: an entry that exists gets the time of this backup and the site.\<close>

definition touch_entry :: "env \<Rightarrow> string \<Rightarrow> string \<Rightarrow> manager \<Rightarrow> manager" where
  "touch_entry e site_name relative_path m =
     (case server_backup_map m relative_path of
        None \<Rightarrow> m
      | Some ent \<Rightarrow>
          m\<lparr>server_backup_map := (server_backup_map m)
               (relative_path \<mapsto> ent(''last_backup_time'' \<mapsto> last_stamp e, ''site'' \<mapsto> site_name))\<rparr>)"

text \<open>
  How far the \<open>try\<close> block of \<open>backup_file\<close> gets before line 246: an exception, one of the
  two early \<open>return None, None\<close> (lines 154 and 158), or line 246 itself, with
  \<open>before_path\<close> and \<open>after_path\<close>.
\<close>

datatype progress = Raised exn | ReturnedEarly | Reached string string

text \<open>Lines 144 to 244.\<close>

definition backup_steps ::
  "env \<Rightarrow> args \<Rightarrow> manager \<Rightarrow> fsys \<Rightarrow> progress \<times> manager \<times> fsys" where
  "backup_steps e a m fs =
     (if is_excluded (file_path a) then (ReturnedEarly, m, fs)
      else if \<not> path_exists fs (file_path a) then (ReturnedEarly, m, fs)
      else case make_folders m e a fs of
        (Some x, fs1) \<Rightarrow> (Raised x, m, fs1)
      | (None, fs1) \<Rightarrow>
          (case run_mode m e a fs1 of
             (Some x, m2, fs2) \<Rightarrow> (Raised x, m2, fs2)
           | (None, m2, fs2) \<Rightarrow>
               (Reached (before_path m e a) (after_path m e a),
                touch_entry e (site_name_of e a) (extract_relative_path (file_path a)) m2,
                fs2)))"

text \<open>
  The methods that the class body of \<open>FtpBackupManager\<close> (lines 42 to 253) defines. The
  \<open>def _save_config\<close> of line 342 is not among them: it is indented under the module-level
  function \<open>create_backup_zip\<close> of line 255, behind the \<open>return\<close> statements of that
  function.
\<close>

definition manager_methods :: "string list" where
  "manager_methods =
     [''__init__'', ''_load_config'', ''_extract_relative_path'', ''extract_site_name'',
      ''backup_file'']"

text \<open>
  Lines 342 to 349, the body of \<open>_save_config\<close>: the whole map is written over the
  configuration file; a failure to open the file is caught and logged.
\<close>

definition save_config_body :: "manager \<Rightarrow> fsys \<Rightarrow> fsys" where
  "save_config_body m fs =
     (if config_path m \<in> dirs fs \<or>
         (dirname (config_path m) \<noteq> [] \<and> dirname (config_path m) \<notin> dirs fs)
      then fs
      else fs\<lparr>files := (files fs)(config_path m \<mapsto> ManifestJson (server_backup_map m))\<rparr>)"

text \<open>Line 246: \<open>self._save_config()\<close>, an attribute lookup on the manager and a call.\<close>

definition call_save_config :: "manager \<Rightarrow> fsys \<Rightarrow> exn + fsys" where
  "call_save_config m fs =
     (if ''_save_config'' \<in> set manager_methods then Inr (save_config_body m fs)
      else Inl AttributeError)"

text \<open>
  Lines 137 to 253: \<open>backup_file\<close>. The result is the pair the method returns,
  \<open>(None, None)\<close> after an early return and after any exception (lines 250 to 253), with
  the manager and the file system as the call leaves them.
\<close>

definition backup_file ::
  "env \<Rightarrow> args \<Rightarrow> manager \<Rightarrow> fsys \<Rightarrow> (string option \<times> string option) \<times> manager \<times> fsys" where
  "backup_file e a m fs =
     (case backup_steps e a m fs of
        (Raised x, m', fs') \<Rightarrow> ((None, None), m', fs')
      | (ReturnedEarly, m', fs') \<Rightarrow> ((None, None), m', fs')
      | (Reached before_dir after_dir, m', fs') \<Rightarrow>
          (case call_save_config m' fs' of
             Inl x \<Rightarrow> ((None, None), m', fs')
           | Inr fs'' \<Rightarrow> ((Some before_dir, Some after_dir), m', fs'')))"

section \<open>ArchiveTreeLayout: the zip builder\<close>

text \<open>
  Lines 683 to 685 of \<open>create_zip_archive\<close>: the non-empty parts of the normalised path.
\<close>

definition folder_parts_of :: "string \<Rightarrow> string list" where
  "folder_parts_of folder_path = filter (\<lambda>part. part \<noteq> []) (split_char os_sep folder_path)"

text \<open>
  Lines 688 to 692: the site name is the first part that \<open>re.match(r'[\w\-_.]+', part)\<close>
  accepts (its first character is of the class), that does not start with \<open>task_\<close> and is
  neither \<open>before\<close> nor \<open>after\<close>; \<open>backup\<close> when there is none.
\<close>

definition site_part :: "string \<Rightarrow> bool" where
  "site_part part =
     (part \<noteq> [] \<and> key_class (hd part) \<and> \<not> startswith part ''task_'' \<and>
      part \<notin> set [''before'', ''after''])"

definition zip_site_name :: "string list \<Rightarrow> string" where
  "zip_site_name folder_parts =
     (case find site_part folder_parts of Some part \<Rightarrow> part | None \<Rightarrow> ''backup'')"

text \<open>Line 695: the characters \<open>\ / : * ? " < > |\<close> become underscores.\<close>

definition unsafe_char :: "char \<Rightarrow> bool" where
  "unsafe_char c = (c \<in> set ([bsl, CHR 0x22] @ ''/:*?<>|''))"

definition safe_site_name_of :: "string \<Rightarrow> string" where
  "safe_site_name_of site_name = re_sub_class unsafe_char ''_'' site_name"

text \<open>
  Lines 696 to 701: the name of the archive; \<open>date_str\<close> is the clock read in the format
  \<open>"%d.%m.%Y.%H%M"\<close>.
\<close>

definition zip_name_of :: "string \<Rightarrow> string option \<Rightarrow> string \<Rightarrow> string" where
  "zip_name_of safe_site_name folder_type date_str =
     (if truthy folder_type
      then ''backup_'' @ safe_site_name @ ''_'' @ the folder_type @ ''_'' @ date_str @ ''.zip''
      else ''backup_'' @ safe_site_name @ ''_'' @ date_str @ ''.zip'')"

text \<open>
  Lines 704 to 725: the folder that receives the archive. With a part that starts with
  \<open>task_\<close>, the path up to the first such part; otherwise the folder above the archived
  one, and one more level up when the archived folder is called \<open>before\<close> or \<open>after\<close>.
\<close>

definition zip_dir_of :: "string \<Rightarrow> string" where
  "zip_dir_of folder_path =
     (let folder_parts = folder_parts_of folder_path in
      if \<exists>part \<in> set folder_parts. startswith part ''task_'' then
        (let task_folder_index =
               length (takeWhile (\<lambda>part. \<not> startswith part ''task_'') folder_parts);
             task_path_parts = take (task_folder_index + 1) folder_parts
         in if CHR '':'' \<in> set folder_path
            then path_join (takeWhile (\<lambda>c. c \<noteq> CHR '':'') folder_path @ '':'')
                   ([os_sep] # task_path_parts)
            else path_join [os_sep] task_path_parts)
      else
        (let zip_dir = dirname folder_path in
         if basename folder_path \<in> set [''before'', ''after''] then dirname zip_dir
         else zip_dir))"

text \<open>
  Lines 670 to 753: \<open>create_zip_archive\<close>. The result is the path of the archive, or
  \<open>None\<close> when the folder does not exist or a statement raises (lines 751 to 753).
\<close>

definition create_zip_archive ::
  "string \<Rightarrow> fsys \<Rightarrow> string \<Rightarrow> string option \<Rightarrow> string option \<times> fsys" where
  "create_zip_archive date_str fs folder_path0 folder_type =
     (if \<not> path_exists fs folder_path0 then (None, fs)
      else
        let folder_path = normpath folder_path0;
            site_name = zip_site_name (folder_parts_of folder_path);
            zip_name = zip_name_of (safe_site_name_of site_name) folder_type date_str;
            zip_path = path_join (zip_dir_of folder_path) [zip_name]
        in case os_makedirs (dirname zip_path) fs of
             Inl x \<Rightarrow> (None, fs)
           | Inr fs1 \<Rightarrow>
               if zip_path \<in> dirs fs1 then (None, fs1)
               else (Some zip_path, fs1\<lparr>files := (files fs1)(zip_path \<mapsto> ZipArchive)\<rparr>))"

section \<open>Notions used in the statements\<close>

text \<open>
  The call gets to line 246: the file is not excluded, it exists, and no statement of the
  \<open>try\<close> block before that line raises.
\<close>

definition copy_succeeds :: "env \<Rightarrow> args \<Rightarrow> manager \<Rightarrow> fsys \<Rightarrow> bool" where
  "copy_succeeds e a m fs =
     (case fst (backup_steps e a m fs) of Reached b c \<Rightarrow> True | _ \<Rightarrow> False)"

text \<open>Two entries agree on every field but \<open>last_backup_time\<close> and \<open>site\<close>.\<close>

definition same_but_last_and_site :: "entry \<Rightarrow> entry \<Rightarrow> bool" where
  "same_but_last_and_site ent ent' =
     (\<forall>f. f \<noteq> ''last_backup_time'' \<longrightarrow> f \<noteq> ''site'' \<longrightarrow> ent' f = ent f)"

text \<open>The bytes of the regular file at a path, if it is one.\<close>

definition read_bytes :: "fsys \<Rightarrow> string \<Rightarrow> string option" where
  "read_bytes fs p = (case files fs p of Some (Bytes s) \<Rightarrow> Some s | _ \<Rightarrow> None)"

text \<open>
  The example of the specification: backup root \<open>/backup\<close>, task 42, the file
  \<open>/var/www/acme/index.php\<close>, in November 2026.
\<close>

definition ex_env :: env where
  "ex_env = \<lparr>hostname = ''devbox'', month_year = ''November 2026'',
     first_stamp = ''2026-11-03 10:00:00'', last_stamp = ''2026-11-03 10:00:01''\<rparr>"

definition ex_args :: "string option \<Rightarrow> args" where
  "ex_args md = \<lparr>file_path = ''/var/www/acme/index.php'', server_name = None, mode = md,
     task_number = Some ''42''\<rparr>"

definition ex_manager :: manager where
  "ex_manager = \<lparr>backup_root = ''/backup'', server_backup_map = Map.empty,
     config_path = ''/backup/backup_config.json''\<rparr>"

definition ex_fs :: "string \<Rightarrow> fsys" where
  "ex_fs content = \<lparr>files = [''/var/www/acme/index.php'' \<mapsto> Bytes content],
     dirs = {''/var'', ''/var/www'', ''/var/www/acme''}\<rparr>"

text \<open>A manager that has backed the file up before, and a file system without the file.\<close>

definition ex_entry :: entry where
  "ex_entry = [''first_backup_time'' \<mapsto> ''2026-10-01 09:00:00'', ''site'' \<mapsto> ''acme'']"

definition ex_manager_old :: manager where
  "ex_manager_old = ex_manager\<lparr>server_backup_map := [''acme/index.php'' \<mapsto> ex_entry]\<rparr>"

definition ex_fs_gone :: fsys where
  "ex_fs_gone = \<lparr>files = Map.empty, dirs = {''/var'', ''/var/www'', ''/var/www/acme''}\<rparr>"

text \<open>
  A regular file where the folder of the site goes, and a directory at the path of the
  before slot of the example.
\<close>

definition ex_fs_blocked :: fsys where
  "ex_fs_blocked =
     \<lparr>files = [''/var/www/acme/index.php'' \<mapsto> Bytes ''v1'', ''/backup/acme'' \<mapsto> Bytes ''note''],
      dirs = {''/var'', ''/var/www'', ''/var/www/acme'', ''/backup'', ''/backup/logs''}\<rparr>"

definition ex_fs_slot_dir :: fsys where
  "ex_fs_slot_dir =
     \<lparr>files = [''/var/www/acme/index.php'' \<mapsto> Bytes ''v1''],
      dirs = {''/var'', ''/var/www'', ''/var/www/acme'', ''/backup'', ''/backup/logs'',
              ''/backup/acme'', ''/backup/acme/November 2026'',
              ''/backup/acme/November 2026/task_42'',
              ''/backup/acme/November 2026/task_42/before'',
              ''/backup/acme/November 2026/task_42/before/acme'',
              ''/backup/acme/November 2026/task_42/before/acme/index.php''}\<rparr>"

text \<open>
  The file the logger of the manager is set up to append to (lines 20 to 22). Every call
  of \<open>backup_file\<close> logs; the content of this file is not modelled, so the statements
  about the content of files are about other paths.
\<close>

definition log_file :: "manager \<Rightarrow> string" where
  "log_file m = path_join (path_join (backup_root m) [''logs'']) [''ftp_backup.log'']"

text \<open>
  The before slot and the after slot of a call: where lines 201, 213, 223 and 224 put the
  copy of the file.
\<close>

definition before_slot :: "manager \<Rightarrow> env \<Rightarrow> args \<Rightarrow> string" where
  "before_slot m e a = path_join (before_path m e a) [extract_relative_path (file_path a)]"

definition after_slot :: "manager \<Rightarrow> env \<Rightarrow> args \<Rightarrow> string" where
  "after_slot m e a = path_join (after_path m e a) [extract_relative_path (file_path a)]"

text \<open>Between two calls the editor writes the file.\<close>

definition write_file :: "fsys \<Rightarrow> string \<Rightarrow> fdata \<Rightarrow> fsys" where
  "write_file fs p d = fs\<lparr>files := (files fs)(p \<mapsto> d)\<rparr>"

text \<open>
  Two calls in succession on the same manager, with the same arguments, the file written
  in between.
\<close>

definition backup_twice ::
  "env \<Rightarrow> env \<Rightarrow> args \<Rightarrow> fdata \<Rightarrow> manager \<Rightarrow> fsys \<Rightarrow>
     (string option \<times> string option) \<times> manager \<times> fsys" where
  "backup_twice e1 e2 a d2 m fs =
     (case backup_file e1 a m fs of
        (r1, m1, fs1) \<Rightarrow> backup_file e2 a m1 (write_file fs1 (file_path a) d2))"




text \<open>
  A backup tree under \<open>/backup\<close>: the site \<open>acme\<close> in November 2026, with slots under
  task 42 and slots without a task.
\<close>

definition ex_tree :: fsys where
  "ex_tree =
     \<lparr>files = [''/backup/acme/November 2026/task_42/before/acme/index.php'' \<mapsto> Bytes ''v1'',
                ''/backup/acme/November 2026/task_42/after/acme/index.php'' \<mapsto> Bytes ''v2'',
                ''/backup/acme/November 2026/before/acme/index.php'' \<mapsto> Bytes ''v0''],
      dirs = {''/backup'', ''/backup/acme'', ''/backup/acme/November 2026'',
              ''/backup/acme/November 2026/task_42'',
              ''/backup/acme/November 2026/task_42/before'',
              ''/backup/acme/November 2026/task_42/before/acme'',
              ''/backup/acme/November 2026/task_42/after'',
              ''/backup/acme/November 2026/task_42/after/acme'',
              ''/backup/acme/November 2026/before'',
              ''/backup/acme/November 2026/before/acme''}\<rparr>"

section \<open>Properties of the site key\<close>

lemma server_key_of_map:
  "server_key_of s = map (\<lambda>c. if key_class c then c else CHR ''_'') s"
  by (induction s) (simp_all add: server_key_of_def)

lemma key_class_underscore: "key_class (CHR ''_'')"
  by (simp add: key_class_def)

lemma key_class_ascii: "key_class c \<Longrightarrow> codepoint c < 128 \<Longrightarrow> ascii_key_char c"
  by (auto simp add: key_class_def ascii_key_char_def is_word_char_def Let_def)

lemma ascii_key_char_underscore: "ascii_key_char (CHR ''_'')"
  by (simp add: ascii_key_char_def)

text \<open>
  C7, as stated, fails: the character with code point 0xE9, a letter with an accent, is
  outside \<open>[A-Za-z0-9_.-]\<close>, and the site key keeps it, since \<open>\w\<close> accepts every
  alphanumeric character of Unicode.
\<close>

theorem server_key_of_latin1_counterexample:
  "server_key_of [CHR 0xE9] = [CHR 0xE9] \<and> \<not> ascii_key_char (CHR 0xE9) \<and>
   CHR 0xE9 \<noteq> CHR ''_''"
  by (simp add: server_key_of_def key_class_def is_word_char_def is_ascii_alnum_def
      ascii_key_char_def codepoint_def)

text \<open>
  C7, amended: the site key has the length of the site name; it keeps every character of
  the class \<open>[\w\-_.]\<close> (a letter or digit of any script, the underscore, the hyphen, the
  dot) and has an underscore in the place of every other one. When the site name is ASCII,
  the key contains only characters of \<open>[A-Za-z0-9_.-]\<close>.
\<close>

theorem server_key_of_chars:
  "length (server_key_of s) = length s \<and>
   (\<forall>i < length s. server_key_of s ! i = (if key_class (s ! i) then s ! i else CHR ''_'')) \<and>
   ((\<forall>c \<in> set s. codepoint c < 128) \<longrightarrow> (\<forall>c \<in> set (server_key_of s). ascii_key_char c))"
  by (auto simp add: server_key_of_map key_class_ascii ascii_key_char_underscore)

theorem server_key_of_chars_witness:
  "length (server_key_of ''my site!'') = 8 \<and> server_key_of ''my site!'' ! 2 = CHR ''_'' \<and>
   server_key_of ''my site!'' ! 3 = CHR ''s'' \<and> ascii_key_char (server_key_of ''my site!'' ! 7)"
  using server_key_of_chars [of "''my site!''"]
  by (simp add: key_class_def is_word_char_def is_ascii_alnum_def ascii_key_char_def codepoint_def)

text \<open>
  C8: the sanitization of the site key is idempotent; the key of a key is that key.
\<close>

theorem server_key_of_idempotent: "server_key_of (server_key_of s) = server_key_of s"
  by (simp add: server_key_of_map key_class_underscore)

theorem server_key_of_idempotent_witness:
  "server_key_of (server_key_of ''a b/c'') = ''a_b_c''"
proof -
  have "server_key_of ''a b/c'' = ''a_b_c''"
    by (simp add: server_key_of_def key_class_def is_word_char_def is_ascii_alnum_def codepoint_def)
  with server_key_of_idempotent [of "''a b/c''"] show ?thesis by simp
qed

section \<open>The file system under the statements of a call\<close>

lemma os_makedirs_frame:
  "os_makedirs p fs = Inr fs' \<Longrightarrow> files fs' = files fs \<and> dirs fs \<subseteq> dirs fs'"
  by (auto simp add: os_makedirs_def split: if_splits)

lemma ensure_dir_frame:
  "ensure_dir p fs = Inr fs' \<Longrightarrow> files fs' = files fs \<and> dirs fs \<subseteq> dirs fs'"
  using os_makedirs_frame by (auto simp add: ensure_dir_def split: if_splits)

lemma os_remove_frame:
  "os_remove p fs = Inr fs' \<Longrightarrow> files fs' = (files fs)(p := None) \<and> dirs fs' = dirs fs"
  by (auto simp add: os_remove_def split: if_splits)

lemma remove_if_exists_frame:
  "remove_if_exists p fs = Inr fs' \<Longrightarrow> files fs' = (files fs)(p := None) \<and> dirs fs' = dirs fs"
  by (auto simp add: remove_if_exists_def os_remove_def path_exists_def split: if_splits)

lemma shutil_copy2_frame:
  "shutil_copy2 src dst fs = Inr fs' \<Longrightarrow>
     dirs fs' = dirs fs \<and>
     (\<exists>content. files fs src = Some content \<and>
        files fs' = (files fs)(copy_target fs src dst \<mapsto> content)) \<and>
     src \<noteq> copy_target fs src dst"
  by (auto simp add: shutil_copy2_def Let_def split: if_splits option.splits)

lemma run_all_Cons:
  "run_all (stmt # stmts) fs = (None, fs') \<longleftrightarrow>
     (\<exists>fs1. stmt fs = Inr fs1 \<and> run_all stmts fs1 = (None, fs'))"
  by (auto split: sum.splits)

lemma run_all_Nil: "run_all [] fs = (None, fs') \<longleftrightarrow> fs' = fs"
  by auto

lemma make_folders_frame:
  assumes "make_folders m e a fs = (None, fs')"
  shows "files fs' = files fs \<and> dirs fs \<subseteq> dirs fs'"
  using assms unfolding make_folders_def run_all_Cons run_all_Nil
  by (metis (no_types, lifting) ensure_dir_frame os_makedirs_frame subset_trans)

section \<open>The manifest under a call\<close>

lemma triple_collapse: "x = (fst x, fst (snd x), snd (snd x))"
  by simp

lemma mode_before_manager:
  "mode_before m e a fs = (x, m2, fs2) \<Longrightarrow>
     m2 = (if x = None
           then add_entry_if_absent e (site_name_of e a) (extract_relative_path (file_path a)) m
           else m)"
  by (auto simp add: mode_before_def Let_def simp del: run_all.simps
      split: prod.splits option.splits)

lemma mode_after_manager: "mode_after m e a fs = (x, m2, fs2) \<Longrightarrow> m2 = m"
  by (auto simp add: mode_after_def Let_def simp del: run_all.simps split: prod.splits)

lemma mode_auto_manager:
  "mode_auto m e a fs = (x, m2, fs2) \<Longrightarrow>
     (x = None \<longrightarrow>
        m2 = add_entry_if_absent e (site_name_of e a) (extract_relative_path (file_path a)) m) \<and>
     (m2 = m \<or>
      m2 = add_entry_if_absent e (site_name_of e a) (extract_relative_path (file_path a)) m)"
  by (auto simp add: mode_auto_def Let_def simp del: run_all.simps
      split: prod.splits option.splits if_splits)

lemma run_mode_manager:
  assumes "run_mode m e a fs = (x, m2, fs2)"
  shows "(x = None \<longrightarrow>
            m2 = (if mode a = Some ''after'' then m
                  else add_entry_if_absent e (site_name_of e a)
                         (extract_relative_path (file_path a)) m)) \<and>
         (m2 = m \<or>
          (mode a \<noteq> Some ''after'' \<and>
           m2 = add_entry_if_absent e (site_name_of e a)
                  (extract_relative_path (file_path a)) m))"
proof (cases "mode a = Some ''before''")
  case True
  with assms have "mode_before m e a fs = (x, m2, fs2)" by (simp add: run_mode_def)
  from mode_before_manager [OF this] True show ?thesis by simp
next
  case nb: False
  show ?thesis
  proof (cases "mode a = Some ''after''")
    case True
    with assms have "mode_after m e a fs = (x, m2, fs2)" by (simp add: run_mode_def)
    from mode_after_manager [OF this] True show ?thesis by simp
  next
    case False
    with nb assms have "mode_auto m e a fs = (x, m2, fs2)" by (simp add: run_mode_def)
    from mode_auto_manager [OF this] False show ?thesis by simp
  qed
qed

lemma backup_steps_early:
  "is_excluded (file_path a) \<or> \<not> path_exists fs (file_path a) \<Longrightarrow>
     backup_steps e a m fs = (ReturnedEarly, m, fs)"
  by (auto simp add: backup_steps_def)

lemma backup_steps_folders_raise:
  "\<not> is_excluded (file_path a) \<Longrightarrow> path_exists fs (file_path a) \<Longrightarrow>
   make_folders m e a fs = (Some x, fs1) \<Longrightarrow>
     backup_steps e a m fs = (Raised x, m, fs1)"
  by (simp add: backup_steps_def)

lemma backup_steps_mode_raise:
  "\<not> is_excluded (file_path a) \<Longrightarrow> path_exists fs (file_path a) \<Longrightarrow>
   make_folders m e a fs = (None, fs1) \<Longrightarrow> run_mode m e a fs1 = (Some x, m2, fs2) \<Longrightarrow>
     backup_steps e a m fs = (Raised x, m2, fs2)"
  by (simp add: backup_steps_def)

lemma backup_steps_reach:
  "\<not> is_excluded (file_path a) \<Longrightarrow> path_exists fs (file_path a) \<Longrightarrow>
   make_folders m e a fs = (None, fs1) \<Longrightarrow> run_mode m e a fs1 = (None, m2, fs2) \<Longrightarrow>
     backup_steps e a m fs =
       (Reached (before_path m e a) (after_path m e a),
        touch_entry e (site_name_of e a) (extract_relative_path (file_path a)) m2, fs2)"
  by (simp add: backup_steps_def)

text \<open>A call that reaches line 246 went through the folders and the branch of its mode.\<close>

lemma backup_steps_ReachedD:
  assumes "backup_steps e a m fs = (Reached b c, m', fs')"
  shows "\<not> is_excluded (file_path a) \<and> path_exists fs (file_path a) \<and>
         b = before_path m e a \<and> c = after_path m e a \<and>
         (\<exists>fs1 m2. make_folders m e a fs = (None, fs1) \<and>
            run_mode m e a fs1 = (None, m2, fs') \<and>
            m' = touch_entry e (site_name_of e a) (extract_relative_path (file_path a)) m2)"
proof -
  have ok: "\<not> is_excluded (file_path a) \<and> path_exists fs (file_path a)"
    using assms backup_steps_early [of a fs e m] by auto
  obtain x1 fs1 where mf: "make_folders m e a fs = (x1, fs1)"
    by (cases "make_folders m e a fs")
  have x1: "x1 = None"
    using assms ok mf backup_steps_folders_raise [of a fs m e _ fs1] by (cases x1) auto
  obtain x2 m2 fs2 where rm: "run_mode m e a fs1 = (x2, m2, fs2)"
    by (cases "run_mode m e a fs1") auto
  have x2: "x2 = None"
    using assms ok mf x1 rm backup_steps_mode_raise [of a fs m e fs1 _ m2 fs2] by (cases x2) auto
  from backup_steps_reach [of a fs m e fs1 m2 fs2] ok mf x1 rm x2 assms
  show ?thesis by auto
qed

text \<open>What a call leaves in the manager, by how far it got.\<close>

lemma backup_steps_manager:
  assumes "backup_steps e a m fs = (p, m', fs')"
  shows "(case p of
            Reached b c \<Rightarrow>
              m' = touch_entry e (site_name_of e a) (extract_relative_path (file_path a))
                     (if mode a = Some ''after'' then m
                      else add_entry_if_absent e (site_name_of e a)
                             (extract_relative_path (file_path a)) m)
          | ReturnedEarly \<Rightarrow> m' = m
          | Raised x \<Rightarrow>
              m' = m \<or>
              (mode a \<noteq> Some ''after'' \<and>
               m' = add_entry_if_absent e (site_name_of e a)
                      (extract_relative_path (file_path a)) m))"
proof (cases "is_excluded (file_path a) \<or> \<not> path_exists fs (file_path a)")
  case True
  from backup_steps_early [OF True, of e m] assms show ?thesis by simp
next
  case False
  then have ok: "\<not> is_excluded (file_path a)" "path_exists fs (file_path a)" by simp_all
  obtain x1 fs1 where mf: "make_folders m e a fs = (x1, fs1)"
    by (cases "make_folders m e a fs")
  show ?thesis
  proof (cases x1)
    case (Some x)
    from backup_steps_folders_raise [OF ok mf [unfolded Some]] assms show ?thesis by simp
  next
    case None
    obtain x2 m2 fs2 where rm: "run_mode m e a fs1 = (x2, m2, fs2)"
      by (cases "run_mode m e a fs1") auto
    show ?thesis
    proof (cases x2)
      case (Some x)
      from backup_steps_mode_raise [OF ok mf [unfolded None] rm [unfolded Some]] assms
        run_mode_manager [OF rm]
      show ?thesis by auto
    next
      case n2: None
      from backup_steps_reach [OF ok mf [unfolded None] rm [unfolded n2]] assms
        run_mode_manager [OF rm] n2
      show ?thesis by auto
    qed
  qed
qed

lemma backup_file_manager:
  "backup_file e a m fs = (r, m', fs') \<Longrightarrow> m' = fst (snd (backup_steps e a m fs))"
  by (auto simp add: backup_file_def split: prod.splits progress.splits sum.splits)

lemma add_entry_if_absent_other:
  "k \<noteq> rel \<Longrightarrow> server_backup_map (add_entry_if_absent e s rel m) k = server_backup_map m k"
  by (simp add: add_entry_if_absent_def)

lemma add_entry_if_absent_present:
  "server_backup_map m k = Some ent \<Longrightarrow>
     server_backup_map (add_entry_if_absent e s rel m) k = Some ent"
  by (auto simp add: add_entry_if_absent_def)

lemma add_entry_if_absent_absent:
  "server_backup_map m rel = None \<Longrightarrow>
     server_backup_map (add_entry_if_absent e s rel m) rel = Some (new_entry e s)"
  by (auto simp add: add_entry_if_absent_def)

lemma touch_entry_other:
  "k \<noteq> rel \<Longrightarrow> server_backup_map (touch_entry e s rel m) k = server_backup_map m k"
  by (simp add: touch_entry_def split: option.splits)

lemma touch_entry_present:
  "server_backup_map m rel = Some ent \<Longrightarrow>
     server_backup_map (touch_entry e s rel m) rel =
       Some (ent(''last_backup_time'' \<mapsto> last_stamp e, ''site'' \<mapsto> s))"
  by (simp add: touch_entry_def)

lemma touch_entry_absent:
  "server_backup_map m rel = None \<Longrightarrow> touch_entry e s rel m = m"
  by (simp add: touch_entry_def)

lemma touch_entry_keeps:
  assumes "server_backup_map m k = Some ent"
  shows "\<exists>ent'. server_backup_map (touch_entry e s rel m) k = Some ent' \<and>
           same_but_last_and_site ent ent'"
proof (cases "k = rel")
  case True
  with assms touch_entry_present [of m rel ent e s] show ?thesis
    by (simp add: same_but_last_and_site_def)
next
  case False
  with assms touch_entry_other [of k rel e s m] show ?thesis
    by (simp add: same_but_last_and_site_def)
qed

lemma copy_succeedsD:
  "copy_succeeds e a m fs \<Longrightarrow>
     \<exists>m' fs'. backup_steps e a m fs = (Reached (before_path m e a) (after_path m e a), m', fs')"
proof -
  assume c: "copy_succeeds e a m fs"
  obtain p m' fs' where st: "backup_steps e a m fs = (p, m', fs')"
    by (cases "backup_steps e a m fs") auto
  with c obtain b d where p: "p = Reached b d"
    by (cases p) (simp_all add: copy_succeeds_def)
  from backup_steps_ReachedD [OF st [unfolded p]] st p show ?thesis by simp
qed

lemma backup_file_sentinel: "fst (backup_file e a m fs) = (None, None)"
  by (simp add: backup_file_def call_save_config_def manager_methods_def
      split: prod.splits progress.splits)

lemma backup_file_state: "snd (backup_file e a m fs) = snd (backup_steps e a m fs)"
  by (simp add: backup_file_def call_save_config_def manager_methods_def
      split: prod.splits progress.splits)

lemma backup_file_by_steps:
  "backup_file e a m fs = ((None, None), snd (backup_steps e a m fs))"
  using backup_file_sentinel [of e a m fs] backup_file_state [of e a m fs]
  by (simp add: prod_eq_iff)

lemma copy_succeeds_Reached: "fst (backup_steps e a m fs) = Reached b c \<Longrightarrow> copy_succeeds e a m fs"
  by (simp add: copy_succeeds_def)

lemma backup_steps_other:
  assumes "backup_steps e a m fs = (p, m', fs')"
    and "k \<noteq> extract_relative_path (file_path a)"
  shows "server_backup_map m' k = server_backup_map m k"
  using backup_steps_manager [OF assms(1)] assms(2)
  by (cases p) (auto simp add: touch_entry_other add_entry_if_absent_other)

lemma backup_file_other:
  assumes "backup_file e a m fs = (r, m', fs')"
    and "k \<noteq> extract_relative_path (file_path a)"
  shows "server_backup_map m' k = server_backup_map m k"
proof -
  obtain p fs1 where st: "backup_steps e a m fs = (p, m', fs1)"
    using backup_file_manager [OF assms(1)] by (cases "backup_steps e a m fs") auto
  from backup_steps_other [OF st assms(2)] show ?thesis .
qed

lemma ex_rel: "extract_relative_path ''/var/www/acme/index.php'' = ''acme/index.php''"
  by code_simp

lemma ex_site: "site_name_of ex_env (ex_args md) = ''acme''"
  unfolding ex_args_def by code_simp

text \<open>
  The slip of line 342: \<open>self._save_config()\<close> raises \<open>AttributeError\<close> in every call
  that gets to line 246, so \<open>backup_file\<close> returns \<open>(None, None)\<close> whatever it is given,
  and the configuration file is never written.
\<close>

lemma backup_file_always_sentinel:
  "fst (backup_file e a m fs) = (None, None) \<and>
   snd (backup_file e a m fs) = snd (backup_steps e a m fs)"
  using backup_file_sentinel [of e a m fs] backup_file_state [of e a m fs] by simp

text \<open>
  C1, as stated, fails: in mode \<open>'after'\<close>, for a file that exists, is not excluded and
  is copied (the after slot holds its bytes), with no entry in the manifest, the call
  inserts no entry; it returns \<open>(None, None)\<close> and leaves no configuration file.
\<close>

theorem after_mode_no_entry_counterexample:
  "copy_succeeds ex_env (ex_args (Some ''after'')) ex_manager (ex_fs ''v1'') \<and>
   fst (backup_file ex_env (ex_args (Some ''after'')) ex_manager (ex_fs ''v1'')) = (None, None) \<and>
   server_backup_map
     (fst (snd (backup_file ex_env (ex_args (Some ''after'')) ex_manager (ex_fs ''v1''))))
     ''acme/index.php'' = None \<and>
   read_bytes (snd (snd (backup_file ex_env (ex_args (Some ''after'')) ex_manager (ex_fs ''v1''))))
     ''/backup/acme/November 2026/task_42/after/acme/index.php'' = Some ''v1'' \<and>
   \<not> path_exists
     (snd (snd (backup_file ex_env (ex_args (Some ''after'')) ex_manager (ex_fs ''v1''))))
     ''/backup/backup_config.json''"
proof -
  have "case backup_steps ex_env (ex_args (Some ''after'')) ex_manager (ex_fs ''v1'') of
          (p, m', fs') \<Rightarrow>
            p = Reached ''/backup/acme/November 2026/task_42/before''
                  ''/backup/acme/November 2026/task_42/after'' \<and>
            server_backup_map m' ''acme/index.php'' = None \<and>
            read_bytes fs' ''/backup/acme/November 2026/task_42/after/acme/index.php'' =
              Some ''v1'' \<and>
            \<not> path_exists fs' ''/backup/backup_config.json''"
    by code_simp
  then show ?thesis
    by (simp add: case_prod_unfold backup_file_by_steps copy_succeeds_Reached)
qed

text \<open>
  C1, amended: a call in which the file exists, is not excluded and the copy succeeds
  leaves the entry of the relative path with \<open>last_backup_time\<close> set to the time of the
  call and \<open>site\<close> set to the site name of the call, in the modes \<open>'before'\<close> and automatic
  (which insert a missing entry) and in mode \<open>'after'\<close> when the entry was there; in mode
  \<open>'after'\<close> without an entry the manifest is left as it was.
\<close>

theorem backup_file_touches_entry:
  assumes "copy_succeeds e a m fs" and "backup_file e a m fs = (r, m', fs')"
  shows "if mode a = Some ''after'' \<and>
            server_backup_map m (extract_relative_path (file_path a)) = None
         then server_backup_map m' = server_backup_map m
         else \<exists>ent. server_backup_map m' (extract_relative_path (file_path a)) = Some ent \<and>
                ent ''last_backup_time'' = Some (last_stamp e) \<and>
                ent ''site'' = Some (site_name_of e a)"
proof -
  let ?rel = "extract_relative_path (file_path a)"
  let ?site = "site_name_of e a"
  obtain p fs1 where st: "backup_steps e a m fs = (p, m', fs1)"
    using backup_file_manager [OF assms(2)] by (cases "backup_steps e a m fs") auto
  from assms(1) st obtain b c where p: "p = Reached b c"
    by (cases p) (simp_all add: copy_succeeds_def)
  let ?base = "if mode a = Some ''after'' then m else add_entry_if_absent e ?site ?rel m"
  have m': "m' = touch_entry e ?site ?rel ?base"
    using backup_steps_manager [OF st] p by simp
  show ?thesis
  proof (cases "mode a = Some ''after'' \<and> server_backup_map m ?rel = None")
    case True
    with m' touch_entry_absent [of m ?rel e ?site] show ?thesis by simp
  next
    case False
    have "\<exists>ent0. server_backup_map ?base ?rel = Some ent0"
    proof (cases "server_backup_map m ?rel")
      case None
      with False add_entry_if_absent_absent [OF None, of e ?site] show ?thesis by auto
    next
      case (Some ent)
      with add_entry_if_absent_present [OF Some, of e ?site ?rel] show ?thesis by auto
    qed
    then obtain ent0 where "server_backup_map ?base ?rel = Some ent0" ..
    from touch_entry_present [OF this, of e ?site] m'
    have "\<exists>ent. server_backup_map m' ?rel = Some ent \<and>
            ent ''last_backup_time'' = Some (last_stamp e) \<and> ent ''site'' = Some ?site"
      by simp
    then show ?thesis unfolding if_not_P [OF False] .
  qed
qed

theorem backup_file_touches_entry_witness:
  "copy_succeeds ex_env (ex_args None) ex_manager (ex_fs ''v1'') \<and>
   (\<exists>ent. server_backup_map
             (fst (snd (backup_file ex_env (ex_args None) ex_manager (ex_fs ''v1''))))
             ''acme/index.php'' = Some ent \<and>
          ent ''last_backup_time'' = Some ''2026-11-03 10:00:01'' \<and>
          ent ''site'' = Some ''acme'')"
proof -
  have cs: "copy_succeeds ex_env (ex_args None) ex_manager (ex_fs ''v1'')"
    by code_simp
  have md: "mode (ex_args None) = None" "file_path (ex_args None) = ''/var/www/acme/index.php''"
    by (simp_all add: ex_args_def)
  have ls: "last_stamp ex_env = ''2026-11-03 10:00:01''" by (simp add: ex_env_def)
  from backup_file_touches_entry
         [OF cs triple_collapse [of "backup_file ex_env (ex_args None) ex_manager (ex_fs ''v1'')"]]
  show ?thesis using cs md ls ex_rel ex_site [of None] by simp
qed

text \<open>
  C9: an entry of the manifest keeps its \<open>first_backup_time\<close> through every call of
  \<open>backup_file\<close>, in every mode and however the call ends; the call changes no field of
  the entry but \<open>last_backup_time\<close> and \<open>site\<close>.
\<close>

theorem first_backup_time_kept:
  assumes "server_backup_map m k = Some ent"
    and "backup_file e a m fs = (r, m', fs')"
  shows "\<exists>ent'. server_backup_map m' k = Some ent' \<and>
           ent' ''first_backup_time'' = ent ''first_backup_time'' \<and>
           same_but_last_and_site ent ent'"
proof -
  obtain p fs1 where st: "backup_steps e a m fs = (p, m', fs1)"
    using backup_file_manager [OF assms(2)] by (cases "backup_steps e a m fs") auto
  let ?rel = "extract_relative_path (file_path a)"
  let ?add = "add_entry_if_absent e (site_name_of e a) ?rel m"
  have add: "server_backup_map ?add k = Some ent"
    using assms(1) by (rule add_entry_if_absent_present)
  have same: "same_but_last_and_site ent ent" by (simp add: same_but_last_and_site_def)
  have "\<exists>ent'. server_backup_map m' k = Some ent' \<and> same_but_last_and_site ent ent'"
  proof (cases p)
    case (Raised x)
    with backup_steps_manager [OF st] have "m' = m \<or> m' = ?add" by auto
    with assms(1) add same show ?thesis by auto
  next
    case ReturnedEarly
    with backup_steps_manager [OF st] assms(1) same show ?thesis by auto
  next
    case (Reached b c)
    with backup_steps_manager [OF st]
    have "m' = touch_entry e (site_name_of e a) ?rel m \<or>
          m' = touch_entry e (site_name_of e a) ?rel ?add" by (auto split: if_splits)
    with touch_entry_keeps [OF assms(1)] touch_entry_keeps [OF add] show ?thesis by auto
  qed
  then obtain ent' where e': "server_backup_map m' k = Some ent'"
    and s': "same_but_last_and_site ent ent'" by blast
  from s' have "ent' ''first_backup_time'' = ent ''first_backup_time''"
    by (simp add: same_but_last_and_site_def)
  with e' s' show ?thesis by blast
qed

theorem first_backup_time_kept_witness:
  "\<exists>ent'. server_backup_map
            (fst (snd (backup_file ex_env (ex_args None) ex_manager_old (ex_fs ''v2''))))
            ''acme/index.php'' = Some ent' \<and>
         ent' ''first_backup_time'' = Some ''2026-10-01 09:00:00''"
proof -
  have old: "server_backup_map ex_manager_old ''acme/index.php'' = Some ex_entry"
    by (simp add: ex_manager_old_def)
  have "backup_file ex_env (ex_args None) ex_manager_old (ex_fs ''v2'') =
          (fst (backup_file ex_env (ex_args None) ex_manager_old (ex_fs ''v2'')),
           fst (snd (backup_file ex_env (ex_args None) ex_manager_old (ex_fs ''v2''))),
           snd (snd (backup_file ex_env (ex_args None) ex_manager_old (ex_fs ''v2''))))"
    by simp
  from first_backup_time_kept [OF old this] show ?thesis
    by (auto simp add: ex_entry_def)
qed

text \<open>
  C10, as stated, fails: in mode \<open>'after'\<close>, with an entry in the manifest and the source
  file gone, the call returns at line 158 and the entry keeps its \<open>site\<close> and has no
  \<open>last_backup_time\<close>.
\<close>

theorem after_mode_missing_file_counterexample:
  "extract_relative_path (file_path (ex_args (Some ''after''))) = ''acme/index.php'' \<and>
   server_backup_map ex_manager_old ''acme/index.php'' = Some ex_entry \<and>
   ex_entry ''last_backup_time'' = None \<and>
   fst (snd (backup_file ex_env (ex_args (Some ''after'')) ex_manager_old ex_fs_gone)) =
     ex_manager_old"
proof -
  have gone: "\<not> path_exists ex_fs_gone (file_path (ex_args (Some ''after'')))"
    by (simp add: path_exists_def ex_fs_gone_def ex_args_def)
  have "backup_steps ex_env (ex_args (Some ''after'')) ex_manager_old ex_fs_gone =
          (ReturnedEarly, ex_manager_old, ex_fs_gone)"
    using gone by (simp add: backup_steps_early)
  then have "fst (snd (backup_file ex_env (ex_args (Some ''after'')) ex_manager_old ex_fs_gone)) =
          ex_manager_old"
    by (simp add: backup_file_state)
  then show ?thesis
    using ex_rel by (simp add: ex_args_def ex_manager_old_def ex_entry_def)
qed

text \<open>
  C10, amended: a call in mode \<open>'after'\<close> never creates an entry when the relative path
  has none (the manifest stays as it was); when the entry exists and the call gets to the
  copy and completes it (the file is not excluded, exists, and nothing raises), the call
  rewrites \<open>last_backup_time\<close> and \<open>site\<close> of that entry, and otherwise leaves the entry
  as it was; the entries of all other relative paths are unchanged by every call, in
  every mode.
\<close>

theorem mode_after_manifest:
  assumes "backup_file e a m fs = (r, m', fs')"
  shows "(\<forall>k. k \<noteq> extract_relative_path (file_path a) \<longrightarrow>
            server_backup_map m' k = server_backup_map m k) \<and>
         (mode a = Some ''after'' \<longrightarrow>
            (case server_backup_map m (extract_relative_path (file_path a)) of
               None \<Rightarrow> server_backup_map m' = server_backup_map m
             | Some ent \<Rightarrow>
                 server_backup_map m' (extract_relative_path (file_path a)) =
                   (if copy_succeeds e a m fs
                    then Some (ent(''last_backup_time'' \<mapsto> last_stamp e,
                                   ''site'' \<mapsto> site_name_of e a))
                    else Some ent)))"
proof -
  let ?rel = "extract_relative_path (file_path a)"
  obtain p fs1 where st: "backup_steps e a m fs = (p, m', fs1)"
    using backup_file_manager [OF assms] by (cases "backup_steps e a m fs") auto
  have others: "\<forall>k. k \<noteq> ?rel \<longrightarrow> server_backup_map m' k = server_backup_map m k"
    using backup_steps_other [OF st] by blast
  have cs: "copy_succeeds e a m fs \<longleftrightarrow> (\<exists>b c. p = Reached b c)"
    using st by (cases p) (simp_all add: copy_succeeds_def)
  have after: "mode a = Some ''after'' \<Longrightarrow>
      m' = (if copy_succeeds e a m fs then touch_entry e (site_name_of e a) ?rel m else m)"
    using backup_steps_manager [OF st] cs by (cases p) auto
  show ?thesis
  proof (cases "server_backup_map m ?rel")
    case None
    with after touch_entry_absent [OF None] others show ?thesis by simp
  next
    case (Some ent)
    with after touch_entry_present [OF Some] others show ?thesis by simp
  qed
qed

theorem mode_after_manifest_witness:
  "copy_succeeds ex_env (ex_args (Some ''after'')) ex_manager_old (ex_fs ''v2'') \<and>
   server_backup_map
     (fst (snd (backup_file ex_env (ex_args (Some ''after'')) ex_manager_old (ex_fs ''v2''))))
     ''acme/index.php'' =
     Some (ex_entry(''last_backup_time'' \<mapsto> ''2026-11-03 10:00:01'', ''site'' \<mapsto> ''acme''))"
proof -
  have cs: "copy_succeeds ex_env (ex_args (Some ''after'')) ex_manager_old (ex_fs ''v2'')"
    by code_simp
  have md: "mode (ex_args (Some ''after'')) = Some ''after''"
    "file_path (ex_args (Some ''after'')) = ''/var/www/acme/index.php''"
    by (simp_all add: ex_args_def)
  have old: "server_backup_map ex_manager_old ''acme/index.php'' = Some ex_entry"
    by (simp add: ex_manager_old_def)
  have ls: "last_stamp ex_env = ''2026-11-03 10:00:01''" by (simp add: ex_env_def)
  have "backup_file ex_env (ex_args (Some ''after'')) ex_manager_old (ex_fs ''v2'') =
          (fst (backup_file ex_env (ex_args (Some ''after'')) ex_manager_old (ex_fs ''v2'')),
           fst (snd (backup_file ex_env (ex_args (Some ''after'')) ex_manager_old (ex_fs ''v2''))),
           snd (snd (backup_file ex_env (ex_args (Some ''after'')) ex_manager_old (ex_fs ''v2''))))"
    by simp
  from mode_after_manifest [OF this]
  show ?thesis using cs md old ls ex_rel ex_site [of "Some ''after''"] by simp
qed

section \<open>The slots under a call\<close>

lemma copy_to_plain_slot:
  assumes "shutil_copy2 src dst fs = Inr fs'" and "dst \<notin> dirs fs'"
  shows "\<exists>d. files fs src = Some d \<and> files fs' = (files fs)(dst \<mapsto> d) \<and> src \<noteq> dst \<and>
           dirs fs' = dirs fs"
proof -
  from shutil_copy2_frame [OF assms(1)] assms(2)
  have "copy_target fs src dst = dst" by (simp add: copy_target_def)
  with shutil_copy2_frame [OF assms(1)] show ?thesis by auto
qed

lemma mode_before_files:
  assumes "mode_before m e a fs = (None, m2, fs2)" and "before_slot m e a \<notin> dirs fs2"
  shows "\<exists>d. files fs (file_path a) = Some d \<and>
           files fs2 = (files fs)(before_slot m e a \<mapsto> d) \<and>
           file_path a \<noteq> before_slot m e a \<and> dirs fs \<subseteq> dirs fs2"
proof -
  from assms(1) have "run_all [os_makedirs (dirname (before_slot m e a)),
                               shutil_copy2 (file_path a) (before_slot m e a)] fs = (None, fs2)"
    by (simp add: mode_before_def before_slot_def Let_def del: run_all.simps
        split: prod.splits option.splits)
  then have "\<exists>fs1. os_makedirs (dirname (before_slot m e a)) fs = Inr fs1 \<and>
      shutil_copy2 (file_path a) (before_slot m e a) fs1 = Inr fs2"
    by (simp add: run_all_Cons run_all_Nil del: run_all.simps)
  then obtain fs1 where mk: "os_makedirs (dirname (before_slot m e a)) fs = Inr fs1"
    and cp: "shutil_copy2 (file_path a) (before_slot m e a) fs1 = Inr fs2" by blast
  from copy_to_plain_slot [OF cp assms(2)] os_makedirs_frame [OF mk] show ?thesis by auto
qed

lemma mode_after_files:
  assumes "mode_after m e a fs = (None, m2, fs2)" and "after_slot m e a \<notin> dirs fs2"
  shows "\<exists>d. files fs (file_path a) = Some d \<and>
           files fs2 = (files fs)(after_slot m e a \<mapsto> d) \<and>
           file_path a \<noteq> after_slot m e a \<and> dirs fs \<subseteq> dirs fs2"
proof -
  from assms(1) have "run_all [os_makedirs (dirname (after_slot m e a)),
                               remove_if_exists (after_slot m e a),
                               shutil_copy2 (file_path a) (after_slot m e a)] fs = (None, fs2)"
    by (simp add: mode_after_def after_slot_def Let_def del: run_all.simps
        split: prod.splits option.splits)
  then have "\<exists>fs1 fs1'. os_makedirs (dirname (after_slot m e a)) fs = Inr fs1 \<and>
      remove_if_exists (after_slot m e a) fs1 = Inr fs1' \<and>
      shutil_copy2 (file_path a) (after_slot m e a) fs1' = Inr fs2"
    by (simp add: run_all_Cons run_all_Nil del: run_all.simps)
  then obtain fs1 fs1' where mk: "os_makedirs (dirname (after_slot m e a)) fs = Inr fs1"
    and rm: "remove_if_exists (after_slot m e a) fs1 = Inr fs1'"
    and cp: "shutil_copy2 (file_path a) (after_slot m e a) fs1' = Inr fs2" by blast
  from copy_to_plain_slot [OF cp assms(2)] obtain d where
    d: "files fs1' (file_path a) = Some d" "files fs2 = (files fs1')(after_slot m e a \<mapsto> d)"
      "file_path a \<noteq> after_slot m e a" "dirs fs2 = dirs fs1'" by auto
  from remove_if_exists_frame [OF rm] os_makedirs_frame [OF mk] d show ?thesis by auto
qed

lemma mode_auto_files:
  assumes "mode_auto m e a fs = (None, m2, fs2)"
    and "before_slot m e a \<notin> dirs fs2" and "after_slot m e a \<notin> dirs fs2"
  shows "\<exists>d. files fs (file_path a) = Some d \<and>
           files fs2 =
             (if extract_relative_path (file_path a) \<notin> dom (server_backup_map m)
              then (files fs)(before_slot m e a \<mapsto> d, after_slot m e a \<mapsto> d)
              else (files fs)(after_slot m e a \<mapsto> d)) \<and>
           file_path a \<noteq> after_slot m e a \<and> dirs fs \<subseteq> dirs fs2 \<and>
           (extract_relative_path (file_path a) \<notin> dom (server_backup_map m) \<longrightarrow>
              file_path a \<noteq> before_slot m e a)"
proof -
  let ?rel = "extract_relative_path (file_path a)"
  let ?b = "before_slot m e a"
  let ?c = "after_slot m e a"
  obtain x1 fs1 where r1: "run_all [os_makedirs (dirname ?b), os_makedirs (dirname ?c)] fs = (x1, fs1)"
    by (cases "run_all [os_makedirs (dirname ?b), os_makedirs (dirname ?c)] fs")
  obtain x2 fs2' where r2: "(if ?rel \<notin> dom (server_backup_map m)
               then run_all [shutil_copy2 (file_path a) ?b] fs1
               else (None, fs1)) = (x2, fs2')"
    by (cases "(if ?rel \<notin> dom (server_backup_map m)
               then run_all [shutil_copy2 (file_path a) ?b] fs1
               else (None, fs1))")
  obtain x3 fs3 where r3: "run_all [remove_if_exists ?c, shutil_copy2 (file_path a) ?c] fs2' = (x3, fs3)"
    by (cases "run_all [remove_if_exists ?c, shutil_copy2 (file_path a) ?c] fs2'")
  have unf: "mode_auto m e a fs =
      (case x1 of Some x \<Rightarrow> (Some x, m, fs1)
       | None \<Rightarrow> (case x2 of Some x \<Rightarrow> (Some x, m, fs2')
          | None \<Rightarrow> (x3, add_entry_if_absent e (site_name_of e a) ?rel m, fs3)))"
    by (simp only: mode_auto_def Let_def before_slot_def [symmetric] after_slot_def [symmetric]
        r1 r2 r3 prod.case)
  with assms(1) have x: "x1 = None" "x2 = None" "x3 = None" "fs3 = fs2"
    by (auto split: option.splits)
  from r1 x have "\<exists>fs0. os_makedirs (dirname ?b) fs = Inr fs0 \<and>
      os_makedirs (dirname ?c) fs0 = Inr fs1"
    by (simp add: run_all_Cons run_all_Nil del: run_all.simps)
  then obtain fs0 where mk1: "os_makedirs (dirname ?b) fs = Inr fs0"
    and mk2: "os_makedirs (dirname ?c) fs0 = Inr fs1" by blast
  from r3 x have "\<exists>fs2''. remove_if_exists ?c fs2' = Inr fs2'' \<and>
      shutil_copy2 (file_path a) ?c fs2'' = Inr fs2"
    by (simp add: run_all_Cons run_all_Nil del: run_all.simps)
  then obtain fs2'' where rm: "remove_if_exists ?c fs2' = Inr fs2''"
    and cp: "shutil_copy2 (file_path a) ?c fs2'' = Inr fs2" by blast
  from copy_to_plain_slot [OF cp assms(3)] obtain d where
    d: "files fs2'' (file_path a) = Some d" "files fs2 = (files fs2'')(?c \<mapsto> d)"
      "file_path a \<noteq> ?c" "dirs fs2 = dirs fs2''" by auto
  have f1: "files fs1 = files fs" "dirs fs \<subseteq> dirs fs1"
    using os_makedirs_frame [OF mk1] os_makedirs_frame [OF mk2] by auto
  have rmf: "files fs2'' = (files fs2')(?c := None)" "dirs fs2'' = dirs fs2'"
    using remove_if_exists_frame [OF rm] by auto
  show ?thesis
  proof (cases "?rel \<notin> dom (server_backup_map m)")
    case True
    with r2 x have cpb: "shutil_copy2 (file_path a) ?b fs1 = Inr fs2'"
      by (simp add: run_all_Cons run_all_Nil del: run_all.simps)
    have "?b \<notin> dirs fs2'" using assms(2) d(4) rmf(2) by simp
    from copy_to_plain_slot [OF cpb this] obtain d' where
      d': "files fs1 (file_path a) = Some d'" "files fs2' = (files fs1)(?b \<mapsto> d')"
        "file_path a \<noteq> ?b" "dirs fs2' = dirs fs1" by auto
    from d d' rmf f1 have "d = d'" by (auto split: if_splits)
    with d d' rmf f1 True show ?thesis by auto
  next
    case False
    with r2 have "fs2' = fs1" by simp
    with d rmf f1 False show ?thesis by auto
  qed
qed

lemma join_step_nosep:
  assumes "\<not> startswith p [os_sep]" and "x \<noteq> []" and "last x \<noteq> os_sep"
  shows "join_step x p = x @ os_sep # p"
proof -
  from assms(2,3) have "\<not> endswith x [os_sep]"
    by (cases x rule: rev_cases) (auto simp add: endswith_def)
  with assms(1,2) show ?thesis by (simp add: join_step_def)
qed

lemma join_leaves:
  "\<exists>x. path_join t [''before''] = x @ ''before'' \<and> path_join t [''after''] = x @ ''after''"
  by (simp add: path_join_def join_step_def startswith_def os_sep_def)

lemma slots_distinct:
  assumes "\<not> startswith (extract_relative_path (file_path a)) [os_sep]"
  shows "before_slot m e a \<noteq> after_slot m e a"
proof -
  let ?rel = "extract_relative_path (file_path a)"
  from join_leaves [of "task_folder m e a"] obtain x where
    b: "before_path m e a = x @ ''before''" and c: "after_path m e a = x @ ''after''"
    by (auto simp add: before_path_def after_path_def)
  have "before_slot m e a = (x @ ''before'') @ os_sep # ?rel"
    unfolding before_slot_def path_join_def b
    using join_step_nosep [OF assms, of "x @ ''before''"] by (simp add: os_sep_def)
  moreover have "after_slot m e a = (x @ ''after'') @ os_sep # ?rel"
    unfolding after_slot_def path_join_def c
    using join_step_nosep [OF assms, of "x @ ''after''"] by (simp add: os_sep_def)
  ultimately show ?thesis by simp
qed

text \<open>
  With a relative path that does not start with a separator, the slots are the files at
  the relative path under the before folder and the after folder.
\<close>

lemma slot_shapes:
  assumes "\<not> startswith (extract_relative_path (file_path a)) [os_sep]"
  shows "before_slot m e a = before_path m e a @ os_sep # extract_relative_path (file_path a) \<and>
         after_slot m e a = after_path m e a @ os_sep # extract_relative_path (file_path a)"
proof -
  let ?rel = "extract_relative_path (file_path a)"
  from join_leaves [of "task_folder m e a"] obtain x where
    b: "before_path m e a = x @ ''before''" and c: "after_path m e a = x @ ''after''"
    by (auto simp add: before_path_def after_path_def)
  have "before_slot m e a = before_path m e a @ os_sep # ?rel"
    unfolding before_slot_def path_join_def b
    using join_step_nosep [OF assms, of "x @ ''before''"] by (simp add: os_sep_def)
  moreover have "after_slot m e a = after_path m e a @ os_sep # ?rel"
    unfolding after_slot_def path_join_def c
    using join_step_nosep [OF assms, of "x @ ''after''"] by (simp add: os_sep_def)
  ultimately show ?thesis by simp
qed

text \<open>The paths of the example are canonical.\<close>

lemma canonical_examples:
  "canonical ''/var/www/acme/index.php''"
  "canonical ''/var''" "canonical ''/var/www''" "canonical ''/var/www/acme''"
  "canonical ''/backup/acme/November 2026/task_42/before/acme/index.php''"
  "canonical ''/backup/acme/November 2026/task_42/after/acme/index.php''"
  by code_simp+

lemma canonical_fs_example: "canonical_fs (ex_fs content)"
  using canonical_examples by (auto simp add: canonical_fs_def ex_fs_def split: if_splits)

lemma backup_steps_root:
  assumes "backup_steps e a m fs = (p, m', fs')"
  shows "backup_root m' = backup_root m"
  using backup_steps_manager [OF assms]
  by (cases p) (auto simp add: touch_entry_def add_entry_if_absent_def split: option.splits)

lemma slots_same_place:
  assumes "backup_root m' = backup_root m" and "month_year e' = month_year e"
    and "hostname e' = hostname e"
  shows "before_slot m' e' a = before_slot m e a \<and> after_slot m' e' a = after_slot m e a"
  using assms
  by (simp add: before_slot_def after_slot_def before_path_def after_path_def task_folder_def
      month_year_folder_def server_folder_def site_name_of_def)

text \<open>A successful call, taken apart.\<close>

lemma copy_succeeds_parts:
  assumes "copy_succeeds e a m fs" and "backup_file e a m fs = (r, m', fs')"
  shows "\<exists>fs1 m2. make_folders m e a fs = (None, fs1) \<and> run_mode m e a fs1 = (None, m2, fs') \<and>
           m' = touch_entry e (site_name_of e a) (extract_relative_path (file_path a)) m2"
proof -
  from copy_succeedsD [OF assms(1)] obtain m1 fs1 where
    st: "backup_steps e a m fs = (Reached (before_path m e a) (after_path m e a), m1, fs1)"
    by blast
  from backup_file_state [of e a m fs] assms(2) st have "m1 = m'" "fs1 = fs'" by simp_all
  with backup_steps_ReachedD [OF st] show ?thesis by blast
qed

text \<open>
  C6, as stated, fails: that the file exists and is not excluded is not enough for the
  before slot to be written. With a regular file where the folder of the site goes,
  \<open>os.makedirs\<close> raises at line 172 and the call ends with no file at the before slot.
  With a directory at the path of the before slot the call gets through, and
  \<open>shutil.copy2\<close> puts the copy inside that directory: at the path of the slot there is
  still no file.
\<close>

theorem before_mode_blocked_counterexample:
  "\<not> is_excluded (file_path (ex_args (Some ''before''))) \<and>
   path_exists ex_fs_blocked (file_path (ex_args (Some ''before''))) \<and>
   \<not> copy_succeeds ex_env (ex_args (Some ''before'')) ex_manager ex_fs_blocked \<and>
   \<not> path_exists
       (snd (snd (backup_file ex_env (ex_args (Some ''before'')) ex_manager ex_fs_blocked)))
       ''/backup/acme/November 2026/task_42/before/acme/index.php'' \<and>
   path_exists ex_fs_slot_dir (file_path (ex_args (Some ''before''))) \<and>
   copy_succeeds ex_env (ex_args (Some ''before'')) ex_manager ex_fs_slot_dir \<and>
   read_bytes
     (snd (snd (backup_file ex_env (ex_args (Some ''before'')) ex_manager ex_fs_slot_dir)))
     ''/backup/acme/November 2026/task_42/before/acme/index.php'' = None \<and>
   read_bytes
     (snd (snd (backup_file ex_env (ex_args (Some ''before'')) ex_manager ex_fs_slot_dir)))
     ''/backup/acme/November 2026/task_42/before/acme/index.php/index.php'' = Some ''v1''"
proof -
  let ?a = "ex_args (Some ''before'')"
  have pre: "\<not> is_excluded (file_path ?a)" "path_exists ex_fs_blocked (file_path ?a)"
    "path_exists ex_fs_slot_dir (file_path ?a)"
    by code_simp+
  have blocked: "case backup_steps ex_env ?a ex_manager ex_fs_blocked of
          (p, m', fs') \<Rightarrow>
            p = Raised NotADirectoryError \<and>
            \<not> path_exists fs' ''/backup/acme/November 2026/task_42/before/acme/index.php''"
    by code_simp
  have slot_dir: "case backup_steps ex_env ?a ex_manager ex_fs_slot_dir of
          (p, m', fs') \<Rightarrow>
            p = Reached ''/backup/acme/November 2026/task_42/before''
                  ''/backup/acme/November 2026/task_42/after'' \<and>
            read_bytes fs' ''/backup/acme/November 2026/task_42/before/acme/index.php'' = None \<and>
            read_bytes fs'
              ''/backup/acme/November 2026/task_42/before/acme/index.php/index.php'' =
              Some ''v1''"
    by code_simp
  from blocked have nb: "\<not> copy_succeeds ex_env ?a ex_manager ex_fs_blocked"
    by (simp add: case_prod_unfold copy_succeeds_def)
  from pre blocked slot_dir nb show ?thesis
    by (simp add: case_prod_unfold backup_file_by_steps copy_succeeds_Reached)
qed

text \<open>
  C6, amended: in mode \<open>'before'\<close>, when no statement of the call raises before line 246,
  the relative path does not start with a separator, all paths of the file system, the
  path of the file and the path of the before slot are absolute and normalised, the path
  of the before slot is not a directory, and neither the file nor the slot is the log
  file: the before slot is the relative path under the before folder, and after the call
  it holds the content of the file, whatever it held and whether or not the manifest had an
  entry. An entry is created, with \<open>first_backup_time\<close> the time of the call, when the
  manifest has none; an entry that is there keeps its \<open>first_backup_time\<close>.
\<close>

theorem before_mode_writes_slot:
  assumes "mode a = Some ''before''"
    and "copy_succeeds e a m fs"
    and "backup_file e a m fs = (r, m', fs')"
    and "\<not> startswith (extract_relative_path (file_path a)) [os_sep]"
    and "canonical_fs fs"
    and "canonical (file_path a)"
    and "canonical (before_slot m e a)"
    and "before_slot m e a \<notin> dirs fs'"
    and "file_path a \<noteq> log_file m"
    and "before_slot m e a \<noteq> log_file m"
  shows "before_slot m e a = before_path m e a @ os_sep # extract_relative_path (file_path a) \<and>
         files fs (file_path a) \<noteq> None \<and>
         files fs' (before_slot m e a) = files fs (file_path a) \<and>
         (case server_backup_map m (extract_relative_path (file_path a)) of
            None \<Rightarrow>
              \<exists>ent. server_backup_map m' (extract_relative_path (file_path a)) = Some ent \<and>
                ent ''first_backup_time'' = Some (first_stamp e)
          | Some ent0 \<Rightarrow>
              \<exists>ent. server_backup_map m' (extract_relative_path (file_path a)) = Some ent \<and>
                ent ''first_backup_time'' = ent0 ''first_backup_time'')"
proof -
  let ?rel = "extract_relative_path (file_path a)"
  let ?site = "site_name_of e a"
  from copy_succeeds_parts [OF assms(2,3)] obtain fs1 m2 where
    mf: "make_folders m e a fs = (None, fs1)" and rm: "run_mode m e a fs1 = (None, m2, fs')"
    and m': "m' = touch_entry e ?site ?rel m2" by blast
  from rm assms(1) have mb: "mode_before m e a fs1 = (None, m2, fs')"
    by (simp add: run_mode_def)
  from mode_before_files [OF mb assms(8)] make_folders_frame [OF mf]
  have files: "files fs (file_path a) \<noteq> None \<and>
         files fs' (before_slot m e a) = files fs (file_path a)"
    by auto
  from mode_before_manager [OF mb] have m2: "m2 = add_entry_if_absent e ?site ?rel m" by simp
  have "case server_backup_map m ?rel of
            None \<Rightarrow> \<exists>ent. server_backup_map m' ?rel = Some ent \<and>
                ent ''first_backup_time'' = Some (first_stamp e)
          | Some ent0 \<Rightarrow> \<exists>ent. server_backup_map m' ?rel = Some ent \<and>
                ent ''first_backup_time'' = ent0 ''first_backup_time''"
  proof (cases "server_backup_map m ?rel")
    case None
    from touch_entry_present [OF add_entry_if_absent_absent [OF None, of e ?site], of e ?site]
    show ?thesis using None m' m2 by (simp add: new_entry_def)
  next
    case (Some ent0)
    from touch_entry_present [OF add_entry_if_absent_present [OF Some, of e ?site ?rel], of e ?site]
    show ?thesis using Some m' m2 by simp
  qed
  with files slot_shapes [OF assms(4), of m e] show ?thesis by blast
qed

theorem before_mode_writes_slot_witness:
  "copy_succeeds ex_env (ex_args (Some ''before'')) ex_manager_old (ex_fs ''v2'') \<and>
   read_bytes (snd (snd (backup_file ex_env (ex_args (Some ''before'')) ex_manager_old
                           (ex_fs ''v2''))))
     ''/backup/acme/November 2026/task_42/before/acme/index.php'' = Some ''v2''"
proof -
  let ?a = "ex_args (Some ''before'')"
  let ?s = "backup_file ex_env ?a ex_manager_old (ex_fs ''v2'')"
  have md: "mode ?a = Some ''before''" by (simp add: ex_args_def)
  have fp: "file_path ?a = ''/var/www/acme/index.php''" by (simp add: ex_args_def)
  have slot: "before_slot ex_manager_old ex_env ?a =
      ''/backup/acme/November 2026/task_42/before/acme/index.php''" by code_simp
  have rel: "\<not> startswith (extract_relative_path (file_path ?a)) [os_sep]" by code_simp
  have lg: "log_file ex_manager_old = ''/backup/logs/ftp_backup.log''" by code_simp
  have "case backup_steps ex_env ?a ex_manager_old (ex_fs ''v2'') of
          (p, m', fs') \<Rightarrow>
            p = Reached ''/backup/acme/November 2026/task_42/before''
                  ''/backup/acme/November 2026/task_42/after'' \<and>
            ''/backup/acme/November 2026/task_42/before/acme/index.php'' \<notin> dirs fs'"
    by code_simp
  then have cs: "copy_succeeds ex_env ?a ex_manager_old (ex_fs ''v2'')"
    and nd: "before_slot ex_manager_old ex_env ?a \<notin> dirs (snd (snd ?s))"
    by (simp_all add: case_prod_unfold backup_file_by_steps copy_succeeds_Reached slot)
  have cf: "canonical (file_path ?a)" and cb: "canonical (before_slot ex_manager_old ex_env ?a)"
    using canonical_examples by (simp_all add: fp slot)
  have l1: "file_path ?a \<noteq> log_file ex_manager_old"
    and l2: "before_slot ex_manager_old ex_env ?a \<noteq> log_file ex_manager_old"
    by (simp_all add: fp slot lg)
  have src: "files (ex_fs ''v2'') (file_path ?a) = Some (Bytes ''v2'')"
    by (simp add: ex_fs_def ex_args_def)
  from before_mode_writes_slot [OF md cs triple_collapse [of ?s] rel canonical_fs_example
      cf cb nd l1 l2]
  have "files (snd (snd ?s)) (before_slot ex_manager_old ex_env ?a) =
      files (ex_fs ''v2'') (file_path ?a)" by blast
  with src slot cs show ?thesis by (simp add: read_bytes_def)
qed

text \<open>
  C5, as stated, fails: when the manifest already has an entry for the relative path (from
  an earlier backup, under any task or month), the automatic mode writes no before copy;
  after two calls, the file written in between, the before slot of the task does not
  exist, and the after slot holds the second content.
\<close>

theorem auto_mode_known_path_counterexample:
  "server_backup_map ex_manager_old
     (extract_relative_path (file_path (ex_args None))) = Some ex_entry \<and>
   copy_succeeds ex_env (ex_args None) ex_manager_old (ex_fs ''v1'') \<and>
   \<not> path_exists
       (snd (snd (backup_twice ex_env ex_env (ex_args None) (Bytes ''v2'') ex_manager_old
                    (ex_fs ''v1''))))
       ''/backup/acme/November 2026/task_42/before/acme/index.php'' \<and>
   read_bytes
     (snd (snd (backup_twice ex_env ex_env (ex_args None) (Bytes ''v2'') ex_manager_old
                  (ex_fs ''v1''))))
     ''/backup/acme/November 2026/task_42/after/acme/index.php'' = Some ''v2''"
proof -
  have old: "server_backup_map ex_manager_old
     (extract_relative_path (file_path (ex_args None))) = Some ex_entry"
    using ex_rel by (simp add: ex_args_def ex_manager_old_def)
  have "case backup_steps ex_env (ex_args None) ex_manager_old (ex_fs ''v1'') of
          (p1, m1, fs1) \<Rightarrow>
            p1 = Reached ''/backup/acme/November 2026/task_42/before''
                   ''/backup/acme/November 2026/task_42/after'' \<and>
            (case backup_steps ex_env (ex_args None) m1
                    (write_file fs1 (file_path (ex_args None)) (Bytes ''v2'')) of
               (p2, m2, fs2) \<Rightarrow>
                 \<not> path_exists fs2
                     ''/backup/acme/November 2026/task_42/before/acme/index.php'' \<and>
                 read_bytes fs2 ''/backup/acme/November 2026/task_42/after/acme/index.php'' =
                   Some ''v2'')"
    by code_simp
  with old show ?thesis
    by (simp add: case_prod_unfold backup_twice_def backup_file_by_steps copy_succeeds_Reached)
qed

text \<open>
  C5, amended: two calls in succession in the automatic mode, for a relative path that has
  no entry in the manifest before the first call and does not start with a separator, in
  the same month and on the same host, both getting through their copies; all paths of the
  file system, the path of the file and the paths of the two slots are absolute and
  normalised, the paths of the slots are not directories, and none of the three is the log
  file. Then the slots are the relative path under the before folder and under the after
  folder, the before slot holds the content of the file at the first call, the after slot
  the content at the second.
\<close>

theorem auto_mode_twice:
  assumes auto: "mode a \<noteq> Some ''before''" "mode a \<noteq> Some ''after''"
    and fresh: "server_backup_map m (extract_relative_path (file_path a)) = None"
    and first: "copy_succeeds e1 a m fs" "backup_file e1 a m fs = (r1, m1, fs1)"
    and same: "month_year e2 = month_year e1" "hostname e2 = hostname e1"
    and second: "copy_succeeds e2 a m1 (write_file fs1 (file_path a) d2)"
      "backup_file e2 a m1 (write_file fs1 (file_path a) d2) = (r2, m2, fs2)"
    and rel: "\<not> startswith (extract_relative_path (file_path a)) [os_sep]"
    and canon: "canonical_fs fs" "canonical (file_path a)"
      "canonical (before_slot m e1 a)" "canonical (after_slot m e1 a)"
    and nodir: "before_slot m e1 a \<notin> dirs fs2" "after_slot m e1 a \<notin> dirs fs2"
    and nolog: "file_path a \<noteq> log_file m" "before_slot m e1 a \<noteq> log_file m"
      "after_slot m e1 a \<noteq> log_file m"
  shows "before_slot m e1 a = before_path m e1 a @ os_sep # extract_relative_path (file_path a) \<and>
         after_slot m e1 a = after_path m e1 a @ os_sep # extract_relative_path (file_path a) \<and>
         files fs (file_path a) \<noteq> None \<and>
         files fs2 (before_slot m e1 a) = files fs (file_path a) \<and>
         files fs2 (after_slot m e1 a) = Some d2"
proof -
  let ?rel = "extract_relative_path (file_path a)"
  let ?b = "before_slot m e1 a"
  let ?c = "after_slot m e1 a"
  let ?fs1' = "write_file fs1 (file_path a) d2"
  have slots: "?b \<noteq> ?c" "?b \<notin> dirs fs2" "?c \<notin> dirs fs2"
    using slots_distinct [OF rel] nodir by simp_all
  have wf: "files ?fs1' = (files fs1)(file_path a \<mapsto> d2)" "dirs ?fs1' = dirs fs1"
    by (simp_all add: write_file_def)
  from copy_succeeds_parts [OF first] obtain fsA mA where
    mfA: "make_folders m e1 a fs = (None, fsA)" and rmA: "run_mode m e1 a fsA = (None, mA, fs1)"
    and m1: "m1 = touch_entry e1 (site_name_of e1 a) ?rel mA" by blast
  from copy_succeeds_parts [OF second] obtain fsB mB where
    mfB: "make_folders m1 e2 a ?fs1' = (None, fsB)" and rmB: "run_mode m1 e2 a fsB = (None, mB, fs2)"
    by blast
  from rmA auto have maA: "mode_auto m e1 a fsA = (None, mA, fs1)" by (simp add: run_mode_def)
  from rmB auto have maB: "mode_auto m1 e2 a fsB = (None, mB, fs2)" by (simp add: run_mode_def)
  have root: "backup_root m1 = backup_root m"
    using backup_steps_root [of e1 a m fs] backup_file_state [of e1 a m fs] first(2)
    by (cases "backup_steps e1 a m fs") auto
  from slots_same_place [OF root same]
  have sl: "before_slot m1 e2 a = ?b" "after_slot m1 e2 a = ?c" by simp_all
  have dB: "dirs fs1 \<subseteq> dirs fsB" using make_folders_frame [OF mfB] wf by simp
  have nB: "before_slot m1 e2 a \<notin> dirs fs2" "after_slot m1 e2 a \<notin> dirs fs2"
    using slots(2,3) sl by simp_all
  from mode_auto_files [OF maB nB] obtain dd where
    B0: "files fsB (file_path a) = Some dd"
      "files fs2 = (if ?rel \<notin> dom (server_backup_map m1)
              then (files fsB)(before_slot m1 e2 a \<mapsto> dd, after_slot m1 e2 a \<mapsto> dd)
              else (files fsB)(after_slot m1 e2 a \<mapsto> dd))"
      "dirs fsB \<subseteq> dirs fs2" by blast
  have B: "files fsB (file_path a) = Some dd"
      "files fs2 = (if ?rel \<notin> dom (server_backup_map m1)
              then (files fsB)(?b \<mapsto> dd, ?c \<mapsto> dd) else (files fsB)(?c \<mapsto> dd))"
      "dirs fsB \<subseteq> dirs fs2"
    using B0 unfolding sl by simp_all
  have "mA = add_entry_if_absent e1 (site_name_of e1 a) ?rel m"
    using mode_auto_manager [OF maA] by simp
  with m1 fresh have "server_backup_map m1 ?rel \<noteq> None"
    using touch_entry_present [OF add_entry_if_absent_absent [OF fresh, of e1 "site_name_of e1 a"],
        of e1 "site_name_of e1 a"] by simp
  then have known: "?rel \<in> dom (server_backup_map m1)" by auto
  have fB: "files fsB = (files fs1)(file_path a \<mapsto> d2)"
    using make_folders_frame [OF mfB] wf by simp
  with B(1) have dd: "dd = d2" by simp
  from B(2) known dd fB have fs2: "files fs2 = (files fs1)(file_path a \<mapsto> d2, ?c \<mapsto> d2)"
    by simp
  have nd: "?b \<notin> dirs fs1" "?c \<notin> dirs fs1" using slots(2,3) B(3) dB by auto
  from fresh have unknown: "?rel \<notin> dom (server_backup_map m)" by (simp add: domIff)
  from mode_auto_files [OF maA nd] unknown obtain d where
    A: "files fsA (file_path a) = Some d" "files fs1 = (files fsA)(?b \<mapsto> d, ?c \<mapsto> d)"
      "file_path a \<noteq> ?b" by auto
  have fA: "files fsA = files fs" using make_folders_frame [OF mfA] by simp
  from fs2 A fA slots(1)
  have "files fs (file_path a) \<noteq> None \<and> files fs2 ?b = files fs (file_path a) \<and>
      files fs2 ?c = Some d2" by simp
  with slot_shapes [OF rel, of m e1] show ?thesis by blast
qed

theorem auto_mode_twice_witness:
  "read_bytes
     (snd (snd (backup_twice ex_env ex_env (ex_args None) (Bytes ''v2'') ex_manager
                  (ex_fs ''v1''))))
     ''/backup/acme/November 2026/task_42/before/acme/index.php'' = Some ''v1'' \<and>
   read_bytes
     (snd (snd (backup_twice ex_env ex_env (ex_args None) (Bytes ''v2'') ex_manager
                  (ex_fs ''v1''))))
     ''/backup/acme/November 2026/task_42/after/acme/index.php'' = Some ''v2''"
proof -
  let ?a = "ex_args None"
  let ?s1 = "backup_file ex_env ?a ex_manager (ex_fs ''v1'')"
  let ?m1 = "fst (snd ?s1)"
  let ?fs1 = "snd (snd ?s1)"
  let ?s2 = "backup_file ex_env ?a ?m1 (write_file ?fs1 (file_path ?a) (Bytes ''v2''))"
  have tw: "backup_twice ex_env ex_env ?a (Bytes ''v2'') ex_manager (ex_fs ''v1'') = ?s2"
    by (simp add: backup_twice_def split: prod.splits)
  have auto: "mode ?a \<noteq> Some ''before''" "mode ?a \<noteq> Some ''after''"
    by (simp_all add: ex_args_def)
  have fresh: "server_backup_map ex_manager (extract_relative_path (file_path ?a)) = None"
    by (simp add: ex_manager_def)
  have rel: "\<not> startswith (extract_relative_path (file_path ?a)) [os_sep]" by code_simp
  have slot: "before_slot ex_manager ex_env ?a =
      ''/backup/acme/November 2026/task_42/before/acme/index.php''"
    "after_slot ex_manager ex_env ?a =
      ''/backup/acme/November 2026/task_42/after/acme/index.php''"
    by code_simp+
  have "case backup_steps ex_env ?a ex_manager (ex_fs ''v1'') of
          (p1, m1, fs1) \<Rightarrow>
            p1 = Reached ''/backup/acme/November 2026/task_42/before''
                   ''/backup/acme/November 2026/task_42/after'' \<and>
            (case backup_steps ex_env ?a m1 (write_file fs1 (file_path ?a) (Bytes ''v2'')) of
               (p2, m2, fs2) \<Rightarrow>
                 p2 = Reached ''/backup/acme/November 2026/task_42/before''
                        ''/backup/acme/November 2026/task_42/after'' \<and>
                 ''/backup/acme/November 2026/task_42/before/acme/index.php'' \<notin> dirs fs2 \<and>
                 ''/backup/acme/November 2026/task_42/after/acme/index.php'' \<notin> dirs fs2)"
    by code_simp
  then have c1: "copy_succeeds ex_env ?a ex_manager (ex_fs ''v1'')"
    and c2: "copy_succeeds ex_env ?a ?m1 (write_file ?fs1 (file_path ?a) (Bytes ''v2''))"
    and nd: "before_slot ex_manager ex_env ?a \<notin> dirs (snd (snd ?s2))"
      "after_slot ex_manager ex_env ?a \<notin> dirs (snd (snd ?s2))"
    by (simp_all add: case_prod_unfold backup_file_by_steps copy_succeeds_Reached slot)
  have fp: "file_path ?a = ''/var/www/acme/index.php''" by (simp add: ex_args_def)
  have lg: "log_file ex_manager = ''/backup/logs/ftp_backup.log''" by code_simp
  have cn: "canonical (file_path ?a)" "canonical (before_slot ex_manager ex_env ?a)"
    "canonical (after_slot ex_manager ex_env ?a)"
    using canonical_examples by (simp_all add: fp slot)
  have nl: "file_path ?a \<noteq> log_file ex_manager"
    "before_slot ex_manager ex_env ?a \<noteq> log_file ex_manager"
    "after_slot ex_manager ex_env ?a \<noteq> log_file ex_manager"
    by (simp_all add: fp slot lg)
  have src: "files (ex_fs ''v1'') (file_path ?a) = Some (Bytes ''v1'')"
    by (simp add: ex_fs_def ex_args_def)
  from auto_mode_twice [OF auto fresh c1 triple_collapse [of ?s1] refl refl c2
      triple_collapse [of ?s2] rel canonical_fs_example cn nd nl]
  have "files (snd (snd ?s2)) (before_slot ex_manager ex_env ?a) =
      files (ex_fs ''v1'') (file_path ?a)"
    and "files (snd (snd ?s2)) (after_slot ex_manager ex_env ?a) = Some (Bytes ''v2'')"
    by blast+
  with src slot show ?thesis unfolding tw by (simp add: read_bytes_def)
qed

section \<open>The folder of the archive\<close>





lemma nosep_ends: "os_sep \<notin> set p \<Longrightarrow> p \<noteq> [] \<Longrightarrow> hd p \<noteq> os_sep \<and> last p \<noteq> os_sep"
  by (metis hd_in_set last_in_set)






















text \<open>The site token of the archive is the first part of the path that is admissible.\<close>

lemma zip_site_name_first: "site_part p \<Longrightarrow> zip_site_name (p # ps) = p"
  by (simp add: zip_site_name_def)





text \<open>
  C3: the folder \<open>/backup/acme/November 2026/task_42/before\<close>, archived with folder type
  \<open>before\<close>. The archive is placed in the task folder, as the claim says; its name is
  \<open>backup_backup_before_<date>.zip\<close>: the site token is \<open>backup\<close>, the first part of the
  path, and not \<open>acme\<close>.
\<close>

theorem zip_archive_name_example:
  "path_exists ex_tree ''/backup/acme/November 2026/task_42/before'' \<and>
   fst (create_zip_archive ''03.11.2026.1912'' ex_tree
          ''/backup/acme/November 2026/task_42/before'' (Some ''before'')) =
     Some ''/backup/acme/November 2026/task_42/backup_backup_before_03.11.2026.1912.zip''"
  by code_simp

section \<open>The example of the specification\<close>

lemma nosep_not_startswith: "os_sep \<notin> set p \<Longrightarrow> \<not> startswith p [os_sep]"
  by (cases p) (auto simp add: startswith_def)

lemma site_of_example: "site_name_of e (ex_args md) = ''acme''"
proof -
  have "extract_site_name (hostname e) ''/var/www/acme/index.php'' = ''acme''" by code_simp
  then show ?thesis by (simp add: site_name_of_def ex_args_def truthy_def)
qed

lemma key_of_example: "server_key_of ''acme'' = ''acme''"
  by code_simp

lemma folders_of_example:
  assumes "backup_root m = ''/backup''" and "month_year e = my" and "my \<noteq> []"
    and "os_sep \<notin> set my"
  shows "before_path m e (ex_args md) = ''/backup/acme/'' @ my @ ''/task_42/before'' \<and>
         after_path m e (ex_args md) = ''/backup/acme/'' @ my @ ''/task_42/after''"
proof -
  have sf: "server_folder m e (ex_args md) = ''/backup/acme''"
    using assms(1)
    by (simp add: server_folder_def site_of_example key_of_example path_join_def join_step_def
        startswith_def endswith_def os_sep_def)
  have my: "\<not> startswith my [os_sep]" "last my \<noteq> os_sep"
    using nosep_not_startswith [OF assms(4)] nosep_ends [OF assms(4,3)] by simp_all
  have mf: "month_year_folder m e (ex_args md) = ''/backup/acme/'' @ my"
    using join_step_nosep [OF my(1), of "''/backup/acme''"] assms(2)
    by (simp add: month_year_folder_def sf path_join_def os_sep_def)
  have tn: "truthy (task_number (ex_args md))" "the (task_number (ex_args md)) = ''42''"
    by (simp_all add: ex_args_def truthy_def)
  have "\<not> startswith ''task_42'' [os_sep]" by (simp add: startswith_def os_sep_def)
  from join_step_nosep [OF this, of "''/backup/acme/'' @ my"] my(2) assms(3)
  have tf: "task_folder m e (ex_args md) = ''/backup/acme/'' @ my @ ''/task_42''"
    by (simp add: task_folder_def mf tn path_join_def os_sep_def)
  have "\<not> startswith ''before'' [os_sep]" "\<not> startswith ''after'' [os_sep]"
    by (simp_all add: startswith_def os_sep_def)
  from join_step_nosep [OF this(1), of "''/backup/acme/'' @ my @ ''/task_42''"]
    join_step_nosep [OF this(2), of "''/backup/acme/'' @ my @ ''/task_42''"]
  show ?thesis
    by (simp add: before_path_def after_path_def tf path_join_def os_sep_def)
qed

lemma slots_of_example:
  assumes "backup_root m = ''/backup''" and "month_year e = my" and "my \<noteq> []"
    and "os_sep \<notin> set my"
  shows "before_slot m e (ex_args md) = ''/backup/acme/'' @ my @ ''/task_42/before/acme/index.php'' \<and>
         after_slot m e (ex_args md) = ''/backup/acme/'' @ my @ ''/task_42/after/acme/index.php''"
proof -
  have rel: "extract_relative_path (file_path (ex_args md)) = ''acme/index.php''"
    using ex_rel by (simp add: ex_args_def)
  have "\<not> startswith ''acme/index.php'' [os_sep]" by (simp add: startswith_def os_sep_def)
  from join_step_nosep [OF this, of "''/backup/acme/'' @ my @ ''/task_42/before''"]
    join_step_nosep [OF this, of "''/backup/acme/'' @ my @ ''/task_42/after''"]
    folders_of_example [OF assms, of md]
  show ?thesis
    by (simp add: before_slot_def after_slot_def rel path_join_def os_sep_def)
qed

lemma auto_mode_fresh:
  assumes auto: "mode a \<noteq> Some ''before''" "mode a \<noteq> Some ''after''"
    and fresh: "server_backup_map m (extract_relative_path (file_path a)) = None"
    and ok: "copy_succeeds e a m fs" "backup_file e a m fs = (r, m', fs')"
    and nodir: "before_slot m e a \<notin> dirs fs'" "after_slot m e a \<notin> dirs fs'"
  shows "files fs (file_path a) \<noteq> None \<and>
         files fs' (before_slot m e a) = files fs (file_path a) \<and>
         files fs' (after_slot m e a) = files fs (file_path a) \<and>
         server_backup_map m' (extract_relative_path (file_path a)) =
           Some ((new_entry e (site_name_of e a))
                   (''last_backup_time'' \<mapsto> last_stamp e, ''site'' \<mapsto> site_name_of e a))"
proof -
  let ?rel = "extract_relative_path (file_path a)"
  let ?site = "site_name_of e a"
  from copy_succeeds_parts [OF ok] obtain fs1 m2 where
    mf: "make_folders m e a fs = (None, fs1)" and rm: "run_mode m e a fs1 = (None, m2, fs')"
    and m': "m' = touch_entry e ?site ?rel m2" by blast
  from rm auto have ma: "mode_auto m e a fs1 = (None, m2, fs')" by (simp add: run_mode_def)
  from fresh have unknown: "?rel \<notin> dom (server_backup_map m)" by (simp add: domIff)
  from mode_auto_files [OF ma nodir] unknown obtain d where
    A: "files fs1 (file_path a) = Some d"
      "files fs' = (files fs1)(before_slot m e a \<mapsto> d, after_slot m e a \<mapsto> d)" by auto
  have f1: "files fs1 = files fs" using make_folders_frame [OF mf] by simp
  have "m2 = add_entry_if_absent e ?site ?rel m" using mode_auto_manager [OF ma] by simp
  with m' touch_entry_present [OF add_entry_if_absent_absent [OF fresh, of e ?site], of e ?site]
  have "server_backup_map m' ?rel =
      Some ((new_entry e ?site)(''last_backup_time'' \<mapsto> last_stamp e, ''site'' \<mapsto> ?site))"
    by simp
  with A f1 show ?thesis by simp
qed

text \<open>
  C2, as stated, fails: after the call of the example, nothing is at
  \<open>/backup/acme/November 2026/task_42/before/index.php\<close> nor at the \<open>after\<close> path, and
  the manifest has no key \<open>index.php\<close>: the relative path is what follows the marker
  \<open>var/www/\<close>, that is \<open>acme/index.php\<close>.
\<close>

theorem default_backup_key_counterexample:
  "copy_succeeds ex_env (ex_args None) ex_manager (ex_fs ''v1'') \<and>
   \<not> path_exists (snd (snd (backup_file ex_env (ex_args None) ex_manager (ex_fs ''v1''))))
     ''/backup/acme/November 2026/task_42/before/index.php'' \<and>
   \<not> path_exists (snd (snd (backup_file ex_env (ex_args None) ex_manager (ex_fs ''v1''))))
     ''/backup/acme/November 2026/task_42/after/index.php'' \<and>
   server_backup_map (fst (snd (backup_file ex_env (ex_args None) ex_manager (ex_fs ''v1''))))
     ''index.php'' = None"
proof -
  have "case backup_steps ex_env (ex_args None) ex_manager (ex_fs ''v1'') of
          (p, m', fs') \<Rightarrow>
            p = Reached ''/backup/acme/November 2026/task_42/before''
                  ''/backup/acme/November 2026/task_42/after'' \<and>
            \<not> path_exists fs' ''/backup/acme/November 2026/task_42/before/index.php'' \<and>
            \<not> path_exists fs' ''/backup/acme/November 2026/task_42/after/index.php'' \<and>
            server_backup_map m' ''index.php'' = None"
    by code_simp
  then show ?thesis
    by (simp add: case_prod_unfold backup_file_by_steps copy_succeeds_Reached)
qed

text \<open>
  C2, amended: with backup root \<open>/backup\<close> and task 42, in any month, a call in the
  automatic mode on \<open>/var/www/acme/index.php\<close>, with no entry for \<open>acme/index.php\<close> in
  the manifest, that gets through its copies (the slots not being directories) writes the
  before copy to \<open>/backup/acme/<month>/task_42/before/acme/index.php\<close> and the after copy
  to \<open>/backup/acme/<month>/task_42/after/acme/index.php\<close>, and gives the manifest the
  key \<open>acme/index.php\<close> with site \<open>acme\<close>; the key \<open>index.php\<close> is left as it was.
\<close>

theorem default_backup_layout:
  assumes root: "backup_root m = ''/backup''"
    and fresh: "server_backup_map m ''acme/index.php'' = None"
    and month: "month_year e = my" "my \<noteq> []" "os_sep \<notin> set my"
    and ok: "copy_succeeds e (ex_args None) m fs" "backup_file e (ex_args None) m fs = (r, m', fs')"
    and nodir: "''/backup/acme/'' @ my @ ''/task_42/before/acme/index.php'' \<notin> dirs fs'"
      "''/backup/acme/'' @ my @ ''/task_42/after/acme/index.php'' \<notin> dirs fs'"
  shows "files fs ''/var/www/acme/index.php'' \<noteq> None \<and>
         files fs' (''/backup/acme/'' @ my @ ''/task_42/before/acme/index.php'') =
           files fs ''/var/www/acme/index.php'' \<and>
         files fs' (''/backup/acme/'' @ my @ ''/task_42/after/acme/index.php'') =
           files fs ''/var/www/acme/index.php'' \<and>
         (\<exists>ent. server_backup_map m' ''acme/index.php'' = Some ent \<and>
            ent ''site'' = Some ''acme'') \<and>
         server_backup_map m' ''index.php'' = server_backup_map m ''index.php''"
proof -
  let ?a = "ex_args None"
  have rel: "extract_relative_path (file_path ?a) = ''acme/index.php''"
    using ex_rel by (simp add: ex_args_def)
  have fp: "file_path ?a = ''/var/www/acme/index.php''" by (simp add: ex_args_def)
  have auto: "mode ?a \<noteq> Some ''before''" "mode ?a \<noteq> Some ''after''"
    by (simp_all add: ex_args_def)
  note sl = slots_of_example [OF root month, of None]
  have nd: "before_slot m e ?a \<notin> dirs fs'" "after_slot m e ?a \<notin> dirs fs'"
    using nodir sl by simp_all
  have fr: "server_backup_map m (extract_relative_path (file_path ?a)) = None"
    using fresh rel by simp
  have other: "server_backup_map m' ''index.php'' = server_backup_map m ''index.php''"
    using backup_file_other [OF ok(2), of "''index.php''"] rel by simp
  from auto_mode_fresh [OF auto fr ok nd] other show ?thesis
    by (simp add: rel fp sl site_of_example ex_rel)
qed

theorem default_backup_layout_witness:
  "copy_succeeds ex_env (ex_args None) ex_manager (ex_fs ''v1'') \<and>
   read_bytes (snd (snd (backup_file ex_env (ex_args None) ex_manager (ex_fs ''v1''))))
     ''/backup/acme/November 2026/task_42/before/acme/index.php'' = Some ''v1'' \<and>
   read_bytes (snd (snd (backup_file ex_env (ex_args None) ex_manager (ex_fs ''v1''))))
     ''/backup/acme/November 2026/task_42/after/acme/index.php'' = Some ''v1''"
proof -
  let ?s = "backup_file ex_env (ex_args None) ex_manager (ex_fs ''v1'')"
  have root: "backup_root ex_manager = ''/backup''" by (simp add: ex_manager_def)
  have fresh: "server_backup_map ex_manager ''acme/index.php'' = None"
    by (simp add: ex_manager_def)
  have month: "month_year ex_env = ''November 2026''" "''November 2026'' \<noteq> []"
    "os_sep \<notin> set ''November 2026''"
    by (simp_all add: ex_env_def os_sep_def)
  have "case backup_steps ex_env (ex_args None) ex_manager (ex_fs ''v1'') of
          (p, m', fs') \<Rightarrow>
            p = Reached ''/backup/acme/November 2026/task_42/before''
                  ''/backup/acme/November 2026/task_42/after'' \<and>
            ''/backup/acme/November 2026/task_42/before/acme/index.php'' \<notin> dirs fs' \<and>
            ''/backup/acme/November 2026/task_42/after/acme/index.php'' \<notin> dirs fs'"
    by code_simp
  then have cs: "copy_succeeds ex_env (ex_args None) ex_manager (ex_fs ''v1'')"
    and nd: "''/backup/acme/'' @ ''November 2026'' @ ''/task_42/before/acme/index.php''
      \<notin> dirs (snd (snd ?s))"
    "''/backup/acme/'' @ ''November 2026'' @ ''/task_42/after/acme/index.php''
      \<notin> dirs (snd (snd ?s))"
    by (simp_all add: case_prod_unfold backup_file_by_steps copy_succeeds_Reached)
  have src: "files (ex_fs ''v1'') ''/var/www/acme/index.php'' = Some (Bytes ''v1'')"
    by (simp add: ex_fs_def)
  from default_backup_layout [OF root fresh month cs triple_collapse [of ?s] nd] src cs
  show ?thesis by (simp add: read_bytes_def)
qed

end
